theory Spec2Isabelle
  imports Complex_Main
begin

section \<open>Dense matrices\<close>

text \<open>
  The notebook works on two-dimensional numpy arrays of floats. A matrix is the list of
  its rows and an entry is a real number: rounding, infinities and NaN of the machine
  floats are outside this development. A numpy array is rectangular, which
  \<open>has_shape n m\<close> records (\<open>n\<close> rows of \<open>m\<close> entries each). A list of rows
  does not keep the column count of a matrix without rows, so the results below are
  stated for layers of at least one unit and batches of at least one sample.
\<close>

type_synonym matrix = "real list list"

definition has_shape :: "nat \<Rightarrow> nat \<Rightarrow> matrix \<Rightarrow> bool" where
  "has_shape n m A \<longleftrightarrow> length A = n \<and> (\<forall>r \<in> set A. length r = m)"

definition ncols :: "matrix \<Rightarrow> nat" where
  "ncols A = (case A of [] \<Rightarrow> 0 | r # _ \<Rightarrow> length r)"

text \<open>\<^verbatim>\<open>np.transpose(A)\<close>: row \<open>j\<close> of the result is column \<open>j\<close> of \<open>A\<close>.\<close>

definition np_transpose :: "matrix \<Rightarrow> matrix" where
  "np_transpose A = map (\<lambda>j. map (\<lambda>r. r ! j) A) [0..<ncols A]"

text \<open>\<^verbatim>\<open>np.dot(u, v)\<close> on two vectors.\<close>

definition np_dot :: "real list \<Rightarrow> real list \<Rightarrow> real" where
  "np_dot u v = sum_list (map2 (*) u v)"

text \<open>\<^verbatim>\<open>np.matmul(A, B)\<close>: entry \<open>(i, j)\<close> is row \<open>i\<close> of \<open>A\<close> times column \<open>j\<close> of \<open>B\<close>.\<close>

definition np_matmul :: "matrix \<Rightarrow> matrix \<Rightarrow> matrix" where
  "np_matmul A B = map (\<lambda>r. map (np_dot r) (np_transpose B)) A"

text \<open>\<^verbatim>\<open>np.trace(A)\<close>: the sum of the diagonal.\<close>

definition np_trace :: "matrix \<Rightarrow> real" where
  "np_trace A = (\<Sum>i\<leftarrow>[0..<min (length A) (ncols A)]. A ! i ! i)"

text \<open>\<^verbatim>\<open>np.multiply(A, B)\<close>, \<^verbatim>\<open>A + B\<close> and \<^verbatim>\<open>A - B\<close> on matrices of one shape.\<close>

definition np_multiply :: "matrix \<Rightarrow> matrix \<Rightarrow> matrix" where
  "np_multiply A B = map2 (map2 (*)) A B"

definition mat_add :: "matrix \<Rightarrow> matrix \<Rightarrow> matrix" where
  "mat_add A B = map2 (map2 (+)) A B"

definition mat_sub :: "matrix \<Rightarrow> matrix \<Rightarrow> matrix" where
  "mat_sub A B = map2 (map2 (-)) A B"

text \<open>\<^verbatim>\<open>c * A\<close> for a scalar \<open>c\<close>.\<close>

definition scalar_mult :: "real \<Rightarrow> matrix \<Rightarrow> matrix" where
  "scalar_mult c A = map (map ((*) c)) A"

text \<open>\<^verbatim>\<open>np.tile(B, (n, 1))\<close>: \<open>n\<close> copies of \<open>B\<close>, one below the other.\<close>

definition np_tile :: "matrix \<Rightarrow> nat \<Rightarrow> matrix" where
  "np_tile B n = concat (replicate n B)"

text \<open>\<^verbatim>\<open>np.sum(A, axis=0)\<close>: the vector of the column sums.\<close>

definition np_sum_axis0 :: "matrix \<Rightarrow> real list" where
  "np_sum_axis0 A = map sum_list (np_transpose A)"

text \<open>
  \<^verbatim>\<open>B - v\<close> for a matrix \<open>B\<close> and a vector \<open>v\<close> of the length of its rows: numpy
  subtracts \<open>v\<close> from every row.
\<close>

definition sub_row_vector :: "matrix \<Rightarrow> real list \<Rightarrow> matrix" where
  "sub_row_vector B v = map (\<lambda>r. map2 (-) r v) B"

section \<open>Activation and regularization\<close>

text \<open>
  \<^verbatim>\<open>
  def relu(A):
      zeros = np.zeros(A.shape)
      return np.maximum(A, zeros)

  def frob_squared(A):
      return np.trace(np.matmul(np.transpose(A), A))
  \<close>
\<close>

definition relu :: "matrix \<Rightarrow> matrix" where
  "relu A = map (map (\<lambda>x. max x 0)) A"

definition frob_squared :: "matrix \<Rightarrow> real" where
  "frob_squared A = np_trace (np_matmul (np_transpose A) A)"

text \<open>
  The loop \<^verbatim>\<open>for theta in self.weights: s += frob_squared(theta)\<close> of \<^verbatim>\<open>train\<close>,
  started at \<open>s = 0\<close>, and the term \<^verbatim>\<open>l/2*s\<close> of the objective.
\<close>

definition frob_sum :: "matrix list \<Rightarrow> real" where
  "frob_sum ws = foldl (\<lambda>s theta. s + frob_squared theta) 0 ws"

definition regularization :: "real \<Rightarrow> matrix list \<Rightarrow> real" where
  "regularization l ws = l / 2 * frob_sum ws"

text \<open>The sum of the squares of all entries of a matrix.\<close>

definition sum_squares :: "matrix \<Rightarrow> real" where
  "sum_squares A = (\<Sum>r\<leftarrow>A. \<Sum>x\<leftarrow>r. x\<^sup>2)"


section \<open>The model class\<close>

text \<open>
  \<^verbatim>\<open>
  class Model:
      def __init__(self, layers):
          self.layers = layers
          self.weights = []
          self.biases = []
          rng = np.random.default_rng()
          for i in range(len(layers) - 1):
              self.weights.append(rng.random((layers[i], layers[i+1])))
              self.biases.append(rng.random((1, layers[i+1])))
  \<close>
  The constructor draws the entries at random; what it fixes is the shape of the state,
  which \<open>wf_model\<close> records together with the invariant that a network has at least
  two layer sizes, each of at least one unit.
\<close>

record Model =
  layers :: "nat list"
  weights :: "matrix list"
  biases :: "matrix list"

definition wf_model :: "Model \<Rightarrow> bool" where
  "wf_model M \<longleftrightarrow>
     2 \<le> length (layers M) \<and>
     length (weights M) = length (layers M) - 1 \<and>
     length (biases M) = length (layers M) - 1 \<and>
     (\<forall>i < length (layers M). 0 < layers M ! i) \<and>
     (\<forall>i < length (layers M) - 1.
        has_shape (layers M ! i) (layers M ! (i + 1)) (weights M ! i) \<and>
        has_shape 1 (layers M ! (i + 1)) (biases M ! i))"

text \<open>The exceptions that the interpreter raises in the code below.\<close>

datatype py_error = IndexError | ZeroDivisionError | UnboundLocalError

text \<open>
  \<^verbatim>\<open>for i in range(n): body\<close> on a state \<open>s\<close>, where the body may raise: the loop
  stops at the first exception.
\<close>

fun for_range :: "nat list \<Rightarrow> (nat \<Rightarrow> 's \<Rightarrow> py_error + 's) \<Rightarrow> 's \<Rightarrow> py_error + 's" where
  "for_range [] body s = Inr s"
| "for_range (i # is) body s =
     (case body i s of Inl e \<Rightarrow> Inl e | Inr s' \<Rightarrow> for_range is body s')"

section \<open>Forward propagation\<close>

text \<open>
  \<^verbatim>\<open>
  def predict(self, input, save_activated=None):
      last_predicted = input.copy()
      for i in range(len(self.layers) - 1):
          b_matrix = np.tile((self.biases[i]), (len(last_predicted), 1))
          last_predicted = np.array(np.matmul(last_predicted, self.weights[i]) + b_matrix)
          if i is not (len(self.layers) - 2):
              last_predicted = relu(last_predicted)
          if save_activated is not None:
              save_activated.append(last_predicted)
      return last_predicted
  \<close>
  The test \<^verbatim>\<open>i is not (len(self.layers) - 2)\<close> compares the identity of two int
  objects, not their values. CPython keeps one object for each int from -5 to 256 and
  allocates every larger int anew, so for two equal ints the test is false up to 256 and
  true above.
\<close>

definition py_is_not :: "nat \<Rightarrow> nat \<Rightarrow> bool" where
  "py_is_not i k \<longleftrightarrow> \<not> (i = k \<and> k \<le> 256)"

text \<open>
  The two assignments to \<^verbatim>\<open>last_predicted\<close> in the loop body: the output of layer
  transition \<open>i\<close> on the output of the one before.
\<close>

definition layer_output :: "Model \<Rightarrow> nat \<Rightarrow> matrix \<Rightarrow> matrix" where
  "layer_output M i last_predicted =
     (let b_matrix = np_tile (biases M ! i) (length last_predicted);
          pre = mat_add (np_matmul last_predicted (weights M ! i)) b_matrix
      in if py_is_not i (length (layers M) - 2) then relu pre else pre)"

text \<open>
  One pass of the loop body, on the pair of \<^verbatim>\<open>last_predicted\<close> and
  \<^verbatim>\<open>save_activated\<close> (\<open>None\<close> when the caller passes no list). Reading
  \<^verbatim>\<open>self.biases[i]\<close> or \<^verbatim>\<open>self.weights[i]\<close> beyond the end of the list raises.
\<close>

definition predict_body ::
  "Model \<Rightarrow> nat \<Rightarrow> matrix \<times> matrix list option \<Rightarrow> py_error + matrix \<times> matrix list option" where
  "predict_body M i s =
     (case s of (last_predicted, save_activated) \<Rightarrow>
        if i < length (biases M) \<and> i < length (weights M) then
          let out = layer_output M i last_predicted
          in Inr (out, map_option (\<lambda>c. c @ [out]) save_activated)
        else Inl IndexError)"

definition predict ::
  "Model \<Rightarrow> matrix \<Rightarrow> matrix list option \<Rightarrow> py_error + matrix \<times> matrix list option" where
  "predict M input save_activated =
     for_range [0..<length (layers M) - 1] (predict_body M) (input, save_activated)"

section \<open>One training step\<close>

text \<open>
  The body of the inner loop of \<^verbatim>\<open>train\<close>, with the variables it reads as
  parameters: the weight decay \<open>l\<close>, the learning rate \<open>lr\<close>, the model and the two
  batches.
  \<^verbatim>\<open>
  s = 0
  activated = []
  y_hat = self.predict(inputs, activated)
  errors = y_hat - outputs
  loss = 1/2*(np.dot(errors[:,0], errors[:,0])**2)
  for theta in self.weights:
      s += frob_squared(theta)
  objective = 1/num_samples*loss + l/2*s
  deltas = self.weights.copy()
  z_primes = activated.copy()
  z_primes[len(activated) - 1] = errors
  for j in range(len(self.layers) - 2):
      a_primes = np.array(activated[len(self.layers) - 3 - j].copy())
      a_primes[a_primes > 0] = 1.0
      prev_z_prime = (np.multiply(
                          np.matmul(z_primes[len(activated)-1-j],
                                    np.transpose(self.weights[len(self.layers)-2-j])),
                          a_primes))
      z_primes[len(activated) - 2 - j] = prev_z_prime
  deltas[0] = (np.matmul(np.transpose(inputs), z_primes[0]))
  for j in range(len(self.layers) - 3):
      deltas[j+1] = (np.matmul(np.transpose(activated[j]), z_primes[j+1]))
  for j in range(len(self.weights) - 1):
      self.weights[j] = self.weights[j] - lr*(1/num_samples*deltas[j] + l*self.weights[j])
      self.biases[j] = self.biases[j] - lr/num_samples*np.sum(z_primes[j], axis=0)
  \<close>
\<close>

text \<open>\<^verbatim>\<open>errors[:,0]\<close>: the first column.\<close>

definition column0 :: "matrix \<Rightarrow> real list" where
  "column0 E = map (\<lambda>r. r ! 0) E"

text \<open>\<^verbatim>\<open>a_primes[a_primes > 0] = 1.0\<close> on a copy: the other entries keep their value.\<close>

definition a_primes_of :: "matrix \<Rightarrow> matrix" where
  "a_primes_of A = map (map (\<lambda>x. if 0 < x then 1 else x)) A"

text \<open>
  The body of the loop over \<open>j\<close> that fills \<^verbatim>\<open>z_primes\<close> from the back. After
  \<^verbatim>\<open>predict\<close> has filled the empty list, \<open>activated\<close> has one entry less than
  \<open>layers\<close>, and \<open>j\<close> stays below \<open>length layers - 2\<close>, so no index is negative or
  beyond the end.
\<close>

definition z_primes_body :: "Model \<Rightarrow> matrix list \<Rightarrow> nat \<Rightarrow> matrix list \<Rightarrow> matrix list" where
  "z_primes_body M activated j z_primes =
     (let a_primes = a_primes_of (activated ! (length (layers M) - 3 - j));
          prev_z_prime =
            np_multiply
              (np_matmul (z_primes ! (length activated - 1 - j))
                         (np_transpose (weights M ! (length (layers M) - 2 - j))))
              a_primes
      in z_primes[length activated - 2 - j := prev_z_prime])"

definition compute_z_primes :: "Model \<Rightarrow> matrix list \<Rightarrow> matrix \<Rightarrow> matrix list" where
  "compute_z_primes M activated errors =
     fold (z_primes_body M activated) [0..<length (layers M) - 2]
          (activated[length activated - 1 := errors])"

definition deltas_body :: "matrix list \<Rightarrow> matrix list \<Rightarrow> nat \<Rightarrow> matrix list \<Rightarrow> matrix list" where
  "deltas_body activated z_primes j deltas =
     deltas[j + 1 := np_matmul (np_transpose (activated ! j)) (z_primes ! (j + 1))]"

definition compute_deltas ::
  "Model \<Rightarrow> matrix \<Rightarrow> matrix list \<Rightarrow> matrix list \<Rightarrow> matrix list" where
  "compute_deltas M inputs activated z_primes =
     fold (deltas_body activated z_primes) [0..<length (layers M) - 3]
          ((weights M)[0 := np_matmul (np_transpose inputs) (z_primes ! 0)])"

text \<open>
  The right-hand sides of the two assignments of the update loop:
  \<^verbatim>\<open>self.weights[j] - lr*(1/num_samples*deltas[j] + l*self.weights[j])\<close> and
  \<^verbatim>\<open>self.biases[j] - lr/num_samples*np.sum(z_primes[j], axis=0)\<close>.
\<close>

definition new_weight :: "real \<Rightarrow> real \<Rightarrow> nat \<Rightarrow> matrix \<Rightarrow> matrix \<Rightarrow> matrix" where
  "new_weight l lr num_samples W delta =
     mat_sub W (scalar_mult lr (mat_add (scalar_mult (1 / real num_samples) delta)
                                        (scalar_mult l W)))"

definition new_bias :: "real \<Rightarrow> nat \<Rightarrow> matrix \<Rightarrow> matrix \<Rightarrow> matrix" where
  "new_bias lr num_samples b z_prime =
     sub_row_vector b (map ((*) (lr / real num_samples)) (np_sum_axis0 z_prime))"

text \<open>
  The body of the update loop. \<open>j\<close> is below \<open>length weights - 1\<close>; reading
  \<^verbatim>\<open>z_primes[j]\<close>, \<^verbatim>\<open>deltas[j]\<close> or \<^verbatim>\<open>self.biases[j]\<close> beyond the end raises.
\<close>

definition update_body ::
  "real \<Rightarrow> real \<Rightarrow> nat \<Rightarrow> matrix list \<Rightarrow> matrix list \<Rightarrow> nat \<Rightarrow> Model \<Rightarrow> py_error + Model" where
  "update_body l lr num_samples z_primes deltas j M =
     (if j < length z_primes \<and> j < length (biases M) \<and> j < length deltas then
        Inr (M\<lparr>weights := (weights M)[j := new_weight l lr num_samples (weights M ! j) (deltas ! j)],
               biases := (biases M)[j := new_bias lr num_samples (biases M ! j) (z_primes ! j)]\<rparr>)
      else Inl IndexError)"

definition update_model ::
  "real \<Rightarrow> real \<Rightarrow> nat \<Rightarrow> matrix list \<Rightarrow> matrix list \<Rightarrow> Model \<Rightarrow> py_error + Model" where
  "update_model l lr num_samples z_primes deltas M =
     for_range [0..<length (weights M) - 1] (update_body l lr num_samples z_primes deltas) M"

text \<open>What one pass leaves behind: the updated model and the variables of the pass.\<close>

record step_result =
  model_of :: Model
  y_hat_of :: matrix
  errors_of :: matrix
  loss_of :: real
  objective_of :: real
  activated_of :: "matrix list"
  z_primes_of :: "matrix list"
  deltas_of :: "matrix list"

text \<open>
  \<^verbatim>\<open>errors[:,0]\<close> raises when the output layer has no unit, \<^verbatim>\<open>1/num_samples\<close> when the
  batch has no sample, and \<^verbatim>\<open>z_primes[len(activated) - 1] = errors\<close> when the network
  has no layer transition (the index is -1 in an empty list).
\<close>

definition train_step ::
  "real \<Rightarrow> real \<Rightarrow> Model \<Rightarrow> matrix \<Rightarrow> matrix \<Rightarrow> py_error + step_result" where
  "train_step l lr M inputs outputs =
     (let num_samples = length inputs in
      case predict M inputs (Some []) of
        Inl e \<Rightarrow> Inl e
      | Inr (y_hat, save_activated) \<Rightarrow>
          let activated = (case save_activated of None \<Rightarrow> [] | Some c \<Rightarrow> c);
              errors = mat_sub y_hat outputs
          in if list_ex (\<lambda>r. r = []) errors then Inl IndexError
             else
               let loss = 1 / 2 * (np_dot (column0 errors) (column0 errors))\<^sup>2;
                   s = frob_sum (weights M)
               in if num_samples = 0 then Inl ZeroDivisionError
                  else
                    let objective = 1 / real num_samples * loss + l / 2 * s
                    in if activated = [] then Inl IndexError
                       else
                         let z_primes = compute_z_primes M activated errors;
                             deltas = compute_deltas M inputs activated z_primes
                         in (case update_model l lr num_samples z_primes deltas M of
                               Inl e \<Rightarrow> Inl e
                             | Inr M' \<Rightarrow>
                                 Inr \<lparr>model_of = M', y_hat_of = y_hat, errors_of = errors,
                                      loss_of = loss, objective_of = objective,
                                      activated_of = activated, z_primes_of = z_primes,
                                      deltas_of = deltas\<rparr>))"

section \<open>The training loop\<close>

text \<open>
  \<^verbatim>\<open>
  def train(self, inputs, outputs, num_epochs=5, lr=0.01, t=1000):
      num_samples = len(inputs)
      l = 1e-5 # weight decay parameter
      for epoch in range(num_epochs):
          for run in range(t):
              ...
          print(f"\nEpoch {epoch+1}: {y_hat}\n")
      return y_hat
  \<close>
  The state of the loops is the model and \<^verbatim>\<open>y_hat\<close>, which is unbound until the first
  pass has run: printing or returning it before raises. The printed lines are left out.
\<close>

definition train_run ::
  "real \<Rightarrow> real \<Rightarrow> matrix \<Rightarrow> matrix \<Rightarrow> nat \<Rightarrow> Model \<times> matrix option \<Rightarrow>
   py_error + Model \<times> matrix option" where
  "train_run l lr inputs outputs run s =
     (case train_step l lr (fst s) inputs outputs of
        Inl e \<Rightarrow> Inl e
      | Inr r \<Rightarrow> Inr (model_of r, Some (y_hat_of r)))"

definition train_epoch ::
  "real \<Rightarrow> real \<Rightarrow> matrix \<Rightarrow> matrix \<Rightarrow> nat \<Rightarrow> nat \<Rightarrow> Model \<times> matrix option \<Rightarrow>
   py_error + Model \<times> matrix option" where
  "train_epoch l lr inputs outputs t epoch s =
     (case for_range [0..<t] (train_run l lr inputs outputs) s of
        Inl e \<Rightarrow> Inl e
      | Inr s' \<Rightarrow> (case snd s' of None \<Rightarrow> Inl UnboundLocalError | Some y \<Rightarrow> Inr s'))"

definition train ::
  "Model \<Rightarrow> matrix \<Rightarrow> matrix \<Rightarrow> nat \<Rightarrow> real \<Rightarrow> nat \<Rightarrow> py_error + matrix \<times> Model" where
  "train M inputs outputs num_epochs lr t =
     (let l = 1 / 100000 in
      case for_range [0..<num_epochs] (train_epoch l lr inputs outputs t) (M, None) of
        Inl e \<Rightarrow> Inl e
      | Inr (M', None) \<Rightarrow> Inl UnboundLocalError
      | Inr (M', Some y) \<Rightarrow> Inr (y, M'))"

section \<open>What the specification compares the code with\<close>

text \<open>The derivative of ReLU, taken as 0 at the breakpoint.\<close>

definition relu_derivative :: "matrix \<Rightarrow> matrix" where
  "relu_derivative A = map (map (\<lambda>x. if 0 < x then 1 else 0)) A"

text \<open>
  The mean-squared error over all samples and output components, scaled by
  \<open>1 / (2 * num_samples)\<close>.
\<close>

definition mse_loss :: "nat \<Rightarrow> matrix \<Rightarrow> real" where
  "mse_loss num_samples E = 1 / (2 * real num_samples) * sum_squares E"

text \<open>A well-shaped call of \<^verbatim>\<open>train\<close>: one input row and one target row per sample.\<close>

definition well_shaped :: "Model \<Rightarrow> matrix \<Rightarrow> matrix \<Rightarrow> bool" where
  "well_shaped M inputs outputs \<longleftrightarrow>
     wf_model M \<and> 0 < length inputs \<and>
     has_shape (length inputs) (hd (layers M)) inputs \<and>
     has_shape (length inputs) (last (layers M)) outputs"

text \<open>
  What every pass of the training loops keeps: the shapes, the layer sizes, and the last
  weight matrix and bias vector of the model \<open>M\<close> that \<^verbatim>\<open>train\<close> started from.
\<close>

definition kept :: "Model \<Rightarrow> matrix \<Rightarrow> matrix \<Rightarrow> Model \<times> matrix option \<Rightarrow> bool" where
  "kept M inputs outputs s \<longleftrightarrow>
     well_shaped (fst s) inputs outputs \<and> layers (fst s) = layers M \<and>
     last (weights (fst s)) = last (weights M) \<and> last (biases (fst s)) = last (biases M)"

section \<open>A small network\<close>

text \<open>
  Two inputs, three hidden units and one output, on a batch of two samples; the
  general results below are instantiated on it. The weights and biases lie in the
  interval from 0 to 1 that the constructor draws them from.
\<close>

definition example_model :: Model where
  "example_model =
     \<lparr>layers = [2, 3, 1],
      weights = [[[1 / 2, 0, 1 / 2], [0, 1 / 2, 1 / 2]], [[1 / 2], [1 / 2], [1 / 2]]],
      biases = [[[0, 0, 0]], [[0]]]\<rparr>"

definition example_inputs :: matrix where
  "example_inputs = [[2, 4], [-2, 2]]"

definition example_outputs :: matrix where
  "example_outputs = [[1], [1 / 2]]"

text \<open>A network without hidden layer: one input, one output.\<close>

definition linear_model :: Model where
  "linear_model = \<lparr>layers = [1, 1], weights = [[[1 / 2]]], biases = [[[1 / 2]]]\<rparr>"

text \<open>
  A chain of \<open>n\<close> layers of one unit each, every weight 1 and every bias -1.
\<close>

definition deep_model :: "nat \<Rightarrow> Model" where
  "deep_model n =
     \<lparr>layers = replicate n 1, weights = replicate (n - 1) [[1]],
      biases = replicate (n - 1) [[-1]]\<rparr>"

section \<open>Facts about the matrix operations\<close>

lemma ncols_Nil: "ncols [] = 0"
  by (simp add: ncols_def)

lemma ncols_Cons: "ncols (r # R) = length r"
  by (simp add: ncols_def)

lemma ncols_shape: "has_shape n m A \<Longrightarrow> 0 < n \<Longrightarrow> ncols A = m"
  by (cases A) (auto simp: has_shape_def ncols_def)

lemma length_np_transpose: "length (np_transpose A) = ncols A"
  by (simp add: np_transpose_def)

lemma sum_list_nth_sq:
  "(\<Sum>j\<leftarrow>[0..<length a]. (a ! j)\<^sup>2) = (\<Sum>x\<leftarrow>a. (x::real)\<^sup>2)"
proof -
  have "map (\<lambda>j. (a ! j)\<^sup>2) [0..<length a] = map (\<lambda>x. x\<^sup>2) (map ((!) a) [0..<length a])"
    by simp
  then show ?thesis by (simp only: map_nth)
qed

lemma sum_list_swap_nth:
  "(\<forall>r \<in> set A. length r = m) \<Longrightarrow>
   (\<Sum>j\<leftarrow>[0..<m]. \<Sum>r\<leftarrow>A. (r ! j)\<^sup>2) = (\<Sum>r\<leftarrow>A. \<Sum>x\<leftarrow>r. (x::real)\<^sup>2)"
proof (induction A)
  case Nil
  then show ?case by simp
next
  case (Cons a A)
  have a: "(\<Sum>j\<leftarrow>[0..<m]. (a ! j)\<^sup>2) = (\<Sum>x\<leftarrow>a. x\<^sup>2)"
    using Cons.prems sum_list_nth_sq [of a] by simp
  have "(\<Sum>j\<leftarrow>[0..<m]. \<Sum>r\<leftarrow>a # A. (r ! j)\<^sup>2)
      = (\<Sum>j\<leftarrow>[0..<m]. (a ! j)\<^sup>2 + (\<Sum>r\<leftarrow>A. (r ! j)\<^sup>2))"
    by simp
  also have "\<dots> = (\<Sum>j\<leftarrow>[0..<m]. (a ! j)\<^sup>2) + (\<Sum>j\<leftarrow>[0..<m]. \<Sum>r\<leftarrow>A. (r ! j)\<^sup>2)"
    by (rule sum_list_addf)
  also have "\<dots> = (\<Sum>x\<leftarrow>a. x\<^sup>2) + (\<Sum>r\<leftarrow>A. \<Sum>x\<leftarrow>r. x\<^sup>2)"
    using a Cons by simp
  finally show ?case by simp
qed

lemma np_dot_self: "np_dot u u = (\<Sum>x\<leftarrow>u. x\<^sup>2)"
  by (induction u) (simp_all add: np_dot_def power2_eq_square)

lemma np_dot_self_nonneg: "0 \<le> np_dot u u"
  unfolding np_dot_self by (rule sum_list_nonneg) auto

text \<open>The diagonal of \<open>A\<^sup>T A\<close> holds the squared norms of the columns of \<open>A\<close>.\<close>

lemma frob_squared_columns:
  "frob_squared A =
     (\<Sum>j\<leftarrow>[0..<min (ncols A) (ncols (np_matmul (np_transpose A) A))]. \<Sum>r\<leftarrow>A. (r ! j)\<^sup>2)"
  unfolding frob_squared_def np_trace_def
  apply (rule arg_cong [where f = sum_list])
  apply (rule nth_equalityI)
   apply (simp add: np_matmul_def np_transpose_def)
  apply (simp add: np_matmul_def np_transpose_def np_dot_self o_def)
  done

lemma ncols_gram: "ncols (np_matmul (np_transpose A) A) = ncols A"
proof (cases "np_transpose A")
  case Nil
  then show ?thesis
    using length_np_transpose [of A] by (simp add: np_matmul_def ncols_Nil)
next
  case (Cons t T)
  then show ?thesis
    using length_np_transpose [of A] by (simp add: np_matmul_def ncols_Cons)
qed

lemma frob_squared_shape:
  assumes "has_shape n m A"
  shows "frob_squared A = sum_squares A"
proof (cases A)
  case Nil
  then show ?thesis
    by (simp add: frob_squared_columns sum_squares_def ncols_def)
next
  case (Cons a A')
  with assms have m: "ncols A = m" and rows: "\<forall>r \<in> set A. length r = m"
    by (auto simp: has_shape_def ncols_def)
  show ?thesis
    using sum_list_swap_nth [OF rows]
    by (simp add: frob_squared_columns ncols_gram m sum_squares_def)
qed

lemma frob_squared_nonneg: "0 \<le> frob_squared A"
  unfolding frob_squared_columns
  by (intro sum_list_nonneg) (auto intro!: sum_list_nonneg)

lemma foldl_frob:
  "foldl (\<lambda>s theta. s + frob_squared theta) a ws = a + (\<Sum>W\<leftarrow>ws. frob_squared W)"
  by (induction ws arbitrary: a) simp_all

lemma frob_sum_sum_list: "frob_sum ws = (\<Sum>W\<leftarrow>ws. frob_squared W)"
  by (simp add: frob_sum_def foldl_frob)

lemma frob_sum_nonneg: "0 \<le> frob_sum ws"
  unfolding frob_sum_sum_list
  by (intro sum_list_nonneg) (auto simp: frob_squared_nonneg)

lemma np_matmul_shape:
  assumes "has_shape n k A" and "has_shape k m B" and "0 < k"
  shows "has_shape n m (np_matmul A B)"
  using assms ncols_shape [OF assms(2,3)]
  by (simp add: has_shape_def np_matmul_def length_np_transpose)

lemma np_tile_shape:
  assumes "has_shape 1 m b"
  shows "has_shape n m (np_tile b n)"
proof -
  from assms obtain r where "b = [r]" and "length r = m"
    by (cases b) (auto simp: has_shape_def)
  then show ?thesis
    by (simp add: has_shape_def np_tile_def)
qed

lemma map2_shape:
  assumes "has_shape n m A" and "has_shape n m B"
  shows "has_shape n m (map2 (map2 f) A B)"
  using assms by (auto simp: has_shape_def set_zip)

lemma relu_shape: "has_shape n m A \<Longrightarrow> has_shape n m (relu A)"
  by (auto simp: has_shape_def relu_def)

section \<open>The regularization term\<close>

text \<open>
  C8. For every matrix \<open>A\<close>, \<^verbatim>\<open>frob_squared(A)\<close>, the trace of \<open>A\<^sup>T A\<close>, is the sum
  of the squares of all entries of \<open>A\<close>; for the single row \<open>[[3, 4]]\<close> it is 25; and
  the regularization term \<open>l/2 * s\<close> of the objective, with \<open>s\<close> the sum of
  \<^verbatim>\<open>frob_squared\<close> over all weight matrices, is \<open>l/2\<close> times the sum of the squared
  entries of all weight matrices.
\<close>

theorem frob_squared_entries:
  assumes "has_shape n m A" and "\<forall>W \<in> set ws. \<exists>n m. has_shape n m W"
  shows "frob_squared A = sum_squares A \<and>
         frob_squared [[3, 4]] = 25 \<and>
         regularization l ws = l / 2 * (\<Sum>W\<leftarrow>ws. sum_squares W)"
proof -
  have "frob_squared [[3, 4]] = 25"
    by (simp add: frob_squared_def np_trace_def np_matmul_def np_transpose_def ncols_def np_dot_def)
  moreover have "map frob_squared ws = map sum_squares ws"
    using assms(2) by (auto simp: frob_squared_shape)
  then have "frob_sum ws = (\<Sum>W\<leftarrow>ws. sum_squares W)"
    unfolding frob_sum_sum_list by (rule arg_cong)
  ultimately show ?thesis
    using assms(1) by (simp add: frob_squared_shape regularization_def)
qed

theorem frob_squared_entries_witness:
  "has_shape 2 3 [[1 / 2, 0, 1 / 2], [0, 1 / 2, 1 / 2]] \<and>
   frob_squared [[1 / 2, 0, 1 / 2], [0, 1 / 2, 1 / 2]] = 1 \<and>
   regularization 2 (weights example_model) = 7 / 4"
proof -
  have a: "has_shape 2 3 [[1 / 2, 0, 1 / 2], [0, 1 / 2, 1 / 2]]"
    by (simp add: has_shape_def)
  have b: "has_shape 3 1 [[1 / 2], [1 / 2], [1 / 2]]"
    by (simp add: has_shape_def)
  have c: "\<forall>W \<in> set (weights example_model). \<exists>n m. has_shape n m W"
    using a b by (auto simp: example_model_def)
  show ?thesis
    using frob_squared_entries [OF a c, of 2] a
    by (simp add: sum_squares_def example_model_def power2_eq_square)
qed

section \<open>Forward propagation returns, and what it caches\<close>

lemma for_range_append:
  "for_range (xs @ ys) body s =
     (case for_range xs body s of Inl e \<Rightarrow> Inl e | Inr s' \<Rightarrow> for_range ys body s')"
  by (induction xs arbitrary: s) (simp_all split: sum.splits)

text \<open>
  A loop whose body never raises on a state that satisfies an invariant, and keeps the
  invariant, returns a state that satisfies it.
\<close>

lemma for_range_invariant:
  assumes "I s" and "\<And>i s. I s \<Longrightarrow> \<exists>s'. body i s = Inr s' \<and> I s' \<and> Q s'"
  shows "\<exists>s'. for_range xs body s = Inr s' \<and> I s' \<and> (xs \<noteq> [] \<longrightarrow> Q s')"
  using assms(1)
proof (induction xs arbitrary: s)
  case Nil
  then show ?case by simp
next
  case (Cons i xs)
  from assms(2) [OF Cons.prems, of i] obtain s1 where
    s1: "body i s = Inr s1" "I s1" "Q s1"
    by blast
  from Cons.IH [OF s1(2)] obtain s' where
    "for_range xs body s1 = Inr s'" "I s'" "xs \<noteq> [] \<longrightarrow> Q s'"
    by blast
  with s1 show ?case
    by (cases "xs = []") auto
qed

lemma layer_output_shape:
  assumes "wf_model M" and "k < length (layers M) - 1"
    and "has_shape n (layers M ! k) X"
  shows "has_shape n (layers M ! (k + 1)) (layer_output M k X)"
proof -
  from assms(1,2) have W: "has_shape (layers M ! k) (layers M ! (k + 1)) (weights M ! k)"
    and b: "has_shape 1 (layers M ! (k + 1)) (biases M ! k)"
    and pos: "0 < layers M ! k"
    by (auto simp: wf_model_def)
  have n: "length X = n"
    using assms(3) by (simp add: has_shape_def)
  have "has_shape n (layers M ! (k + 1))
          (mat_add (np_matmul X (weights M ! k)) (np_tile (biases M ! k) n))"
    unfolding mat_add_def
    by (intro map2_shape np_matmul_shape [OF assms(3) W pos] np_tile_shape [OF b])
  then show ?thesis
    by (simp add: layer_output_def n Let_def relu_shape)
qed


lemma predict_prefix:
  assumes "n \<le> length (weights M)" and "n \<le> length (biases M)"
  shows "\<exists>y acts. for_range [0..<n] (predict_body M) (X, Some c) = Inr (y, Some (c @ acts)) \<and>
           for_range [0..<n] (predict_body M) (X, None) = Inr (y, None) \<and>
           length acts = n \<and> y = (if n = 0 then X else last acts) \<and>
           (\<forall>k<n. acts ! k = layer_output M k (if k = 0 then X else acts ! (k - 1)))"
  using assms
proof (induction n)
  case 0
  then show ?case by simp
next
  case (Suc n)
  then obtain y acts where run: "for_range [0..<n] (predict_body M) (X, Some c) = Inr (y, Some (c @ acts))"
    and run': "for_range [0..<n] (predict_body M) (X, None) = Inr (y, None)"
    and len: "length acts = n" and y: "y = (if n = 0 then X else last acts)"
    and acts: "\<forall>k<n. acts ! k = layer_output M k (if k = 0 then X else acts ! (k - 1))"
    by auto
  let ?out = "layer_output M n y"
  have y': "y = (if n = 0 then X else acts ! (n - 1))"
    using y len by (cases "acts = []") (auto simp: last_conv_nth)
  have 1: "for_range [0..<Suc n] (predict_body M) (X, Some c) = Inr (?out, Some (c @ (acts @ [?out])))"
    using Suc.prems run by (simp add: for_range_append predict_body_def Let_def)
  have 2: "for_range [0..<Suc n] (predict_body M) (X, None) = Inr (?out, None)"
    using Suc.prems run' by (simp add: for_range_append predict_body_def Let_def)
  have 3: "\<forall>k<Suc n. (acts @ [?out]) ! k = layer_output M k (if k = 0 then X else (acts @ [?out]) ! (k - 1))"
  proof (intro allI impI)
    fix k assume "k < Suc n"
    show "(acts @ [?out]) ! k = layer_output M k (if k = 0 then X else (acts @ [?out]) ! (k - 1))"
    proof (cases "k < n")
      case True
      then have "k - 1 < n" by simp
      have a: "(acts @ [?out]) ! k = acts ! k"
        using True len by (simp add: nth_append)
      have b: "(acts @ [?out]) ! (k - 1) = acts ! (k - 1)"
        using \<open>k - 1 < n\<close> len by (simp add: nth_append)
      show ?thesis
        unfolding a b using acts [rule_format, OF True] .
    next
      case False
      with \<open>k < Suc n\<close> have k: "k = n" by simp
      have a: "(acts @ [?out]) ! n = ?out"
        using len by (simp add: nth_append)
      have b: "n \<noteq> 0 \<Longrightarrow> (acts @ [?out]) ! (n - 1) = acts ! (n - 1)"
        using len by (simp add: nth_append)
      show ?thesis
        unfolding k a using b y' by (cases "n = 0") simp_all
    qed
  qed
  show ?case
    apply (rule exI [of _ ?out], rule exI [of _ "acts @ [?out]"])
    using 1 2 3 len by simp
qed

lemma predict_run:
  assumes "length (layers M) - 1 \<le> length (weights M)"
    and "length (layers M) - 1 \<le> length (biases M)"
  obtains y acts where
    "predict M X (Some c) = Inr (y, Some (c @ acts))"
    "predict M X None = Inr (y, None)"
    "length acts = length (layers M) - 1"
    "y = (if length (layers M) - 1 = 0 then X else last acts)"
    "\<forall>k < length (layers M) - 1.
       acts ! k = layer_output M k (if k = 0 then X else acts ! (k - 1))"
  using predict_prefix [OF assms, of X c] unfolding predict_def by blast

lemma acts_shape:
  assumes "wf_model M" and "has_shape n (hd (layers M)) X"
    and "\<forall>k < length (layers M) - 1.
           acts ! k = layer_output M k (if k = 0 then X else acts ! (k - 1))"
    and "k < length (layers M) - 1"
  shows "has_shape n (layers M ! (k + 1)) (acts ! k)"
  using assms(4)
proof (induction k)
  case 0
  have "has_shape n (layers M ! 0) X"
    using assms(1,2) by (cases "layers M") (auto simp: wf_model_def)
  from layer_output_shape [OF assms(1) 0 this] show ?case
    using assms(3) 0 by simp
next
  case (Suc k)
  then have "has_shape n (layers M ! Suc k) (acts ! k)" by simp
  from layer_output_shape [OF assms(1) Suc.prems this] show ?case
    using assms(3) [rule_format, OF Suc.prems] by simp
qed

lemma predict_shapes:
  assumes "wf_model M" and "has_shape n (hd (layers M)) X"
  obtains y acts where
    "predict M X (Some c) = Inr (y, Some (c @ acts))"
    "predict M X None = Inr (y, None)"
    "length acts = length (layers M) - 1"
    "y = last acts"
    "y = acts ! (length (layers M) - 2)"
    "has_shape n (last (layers M)) y"
    "\<forall>k < length (layers M) - 1.
       acts ! k = layer_output M k (if k = 0 then X else acts ! (k - 1))"
    "\<forall>k < length (layers M) - 1. has_shape n (layers M ! (k + 1)) (acts ! k)"
proof -
  from assms(1) have len: "length (layers M) - 1 \<le> length (weights M)"
    "length (layers M) - 1 \<le> length (biases M)" and L: "2 \<le> length (layers M)"
    by (auto simp: wf_model_def)
  from predict_run [OF len, of X c] obtain y acts where
    run: "predict M X (Some c) = Inr (y, Some (c @ acts))"
      "predict M X None = Inr (y, None)"
    and la: "length acts = length (layers M) - 1"
    and y: "y = (if length (layers M) - 1 = 0 then X else last acts)"
    and acts: "\<forall>k < length (layers M) - 1.
       acts ! k = layer_output M k (if k = 0 then X else acts ! (k - 1))"
    by blast
  have shapes: "has_shape n (layers M ! (k + 1)) (acts ! k)" if "k < length (layers M) - 1" for k
    using acts_shape [OF assms(1,2) acts that] .
  have y1: "y = last acts"
    using y L by simp
  have "acts \<noteq> []"
    using la L by auto
  then have "last acts = acts ! (length acts - 1)"
    by (rule last_conv_nth)
  moreover have "length acts - 1 = length (layers M) - 2"
    using la by simp
  ultimately have y2: "y = acts ! (length (layers M) - 2)"
    using y1 by simp
  have "layers M \<noteq> []"
    using L by auto
  then have "last (layers M) = layers M ! (length (layers M) - 1)"
    by (rule last_conv_nth)
  moreover have "length (layers M) - 1 = length (layers M) - 2 + 1"
    using L by simp
  ultimately have ys: "has_shape n (last (layers M)) y"
    using shapes [of "length (layers M) - 2"] L y2 by simp
  show thesis
    using that [OF run la y1 y2 ys acts] shapes by blast
qed

lemma wf_example_model: "wf_model example_model"
  by (auto simp: wf_model_def example_model_def has_shape_def less_Suc_eq numeral_2_eq_2 numeral_3_eq_3)

text \<open>
  C10. On a network with \<open>L\<close> layer sizes, a call of \<^verbatim>\<open>predict\<close> with a cache list
  appends exactly \<open>L - 1\<close> matrices to it, one per layer transition, and the last
  one appended is the prediction that the call returns.
\<close>

theorem predict_cache:
  assumes "wf_model M" and "has_shape (length input) (hd (layers M)) input"
  shows "\<exists>y acts. predict M input (Some cache) = Inr (y, Some (cache @ acts)) \<and>
           length acts = length (layers M) - 1 \<and> last acts = y"
proof -
  from assms(1) have len: "length (layers M) - 1 \<le> length (weights M)"
    "length (layers M) - 1 \<le> length (biases M)" and L: "length (layers M) - 1 \<noteq> 0"
    by (auto simp: wf_model_def)
  from predict_run [OF len, of input cache] L show ?thesis
    by metis
qed

theorem predict_cache_witness:
  "wf_model example_model \<and> has_shape (length example_inputs) (hd (layers example_model)) example_inputs \<and>
   (\<exists>y acts. predict example_model example_inputs (Some []) = Inr (y, Some ([] @ acts)) \<and>
           length acts = length (layers example_model) - 1 \<and> last acts = y)"
proof -
  have s: "has_shape (length example_inputs) (hd (layers example_model)) example_inputs"
    by (simp add: has_shape_def example_inputs_def example_model_def)
  from predict_cache [OF wf_example_model s, of "[]"] wf_example_model s show ?thesis
    by blast
qed


section \<open>The layer transitions\<close>

text \<open>
  On a network of at most 258 layer sizes, \<^verbatim>\<open>predict\<close> returns a matrix with one row
  per sample and one column per output unit; every transition multiplies by the weight
  matrix and adds the bias row to every sample row, the transitions before the last one
  apply ReLU and the last one does not; the cache, when given, receives the outputs of
  the transitions and never the input batch. The result is the same with and without a
  cache.
\<close>

lemma predict_forward:
  assumes "wf_model M" and "has_shape n (hd (layers M)) input"
    and "length (layers M) \<le> 258"
  shows "\<exists>y acts. predict M input (Some cache) = Inr (y, Some (cache @ acts)) \<and>
           predict M input None = Inr (y, None) \<and>
           has_shape n (last (layers M)) y \<and>
           length acts = length (layers M) - 1 \<and>
           (\<forall>k < length (layers M) - 1.
              acts ! k =
                (let last_predicted = (if k = 0 then input else acts ! (k - 1));
                     pre = mat_add (np_matmul last_predicted (weights M ! k))
                                   (np_tile (biases M ! k) n)
                 in if k = length (layers M) - 2 then pre else relu pre))"
proof -
  from assms(1) have len: "length (layers M) - 1 \<le> length (weights M)"
    "length (layers M) - 1 \<le> length (biases M)" and L: "2 \<le> length (layers M)"
    by (auto simp: wf_model_def)
  from predict_run [OF len, of input cache] obtain y acts where
    run: "predict M input (Some cache) = Inr (y, Some (cache @ acts))"
      "predict M input None = Inr (y, None)"
    and la: "length acts = length (layers M) - 1"
    and y: "y = (if length (layers M) - 1 = 0 then input else last acts)"
    and acts: "\<forall>k < length (layers M) - 1.
       acts ! k = layer_output M k (if k = 0 then input else acts ! (k - 1))"
    by blast
  have shapes: "has_shape n (layers M ! (k + 1)) (acts ! k)" if "k < length (layers M) - 1" for k
    using acts_shape [OF assms(1,2) acts that] .
  have "acts \<noteq> []"
    using la L by auto
  then have "last acts = acts ! (length acts - 1)"
    by (rule last_conv_nth)
  moreover have "length acts - 1 = length (layers M) - 2"
    using la by simp
  ultimately have "y = acts ! (length (layers M) - 2)"
    using y L by simp
  moreover have "last (layers M) = layers M ! (length (layers M) - 2 + 1)"
    using L last_conv_nth [of "layers M"] by (cases "layers M = []") (auto simp: Suc_diff_Suc numeral_2_eq_2)
  ultimately have ys: "has_shape n (last (layers M)) y"
    using shapes [of "length (layers M) - 2"] L by simp
  have rows: "length (if k = 0 then input else acts ! (k - 1)) = n" if "k < length (layers M) - 1" for k
  proof (cases "k = 0")
    case True
    then show ?thesis using assms(2) by (simp add: has_shape_def)
  next
    case False
    then show ?thesis using shapes [of "k - 1"] that by (simp add: has_shape_def)
  qed
  have py: "py_is_not k (length (layers M) - 2) \<longleftrightarrow> k \<noteq> length (layers M) - 2" for k
    using assms(3) by (auto simp: py_is_not_def)
  have "acts ! k =
                (let last_predicted = (if k = 0 then input else acts ! (k - 1));
                     pre = mat_add (np_matmul last_predicted (weights M ! k))
                                   (np_tile (biases M ! k) n)
                 in if k = length (layers M) - 2 then pre else relu pre)"
    if "k < length (layers M) - 1" for k
  proof -
    let ?P = "if k = 0 then input else acts ! (k - 1)"
    have "acts ! k = layer_output M k ?P"
      using acts that by blast
    also have "\<dots> = (let pre = mat_add (np_matmul ?P (weights M ! k))
                                   (np_tile (biases M ! k) n)
                 in if k = length (layers M) - 2 then pre else relu pre)"
      unfolding layer_output_def py rows [OF that] by (cases "k = length (layers M) - 2") (simp_all add: Let_def)
    finally show ?thesis
      by (simp only: Let_def)
  qed
  then show ?thesis
    using run ys la by blast
qed


text \<open>
  Above 258 layer sizes the identity test of \<^verbatim>\<open>predict\<close> never recognises the last
  transition, and its output goes through ReLU as well.
\<close>

lemma deep_lengths:
  "length (weights (deep_model n)) = n - 1" "length (biases (deep_model n)) = n - 1"
  "length (layers (deep_model n)) = n"
  by (simp_all add: deep_model_def)

lemma deep_layer_output:
  assumes "256 < n - 2" and "k < n - 1"
  shows "layer_output (deep_model n) k [[0]] = [[0]]"
  using assms
  by (simp add: layer_output_def deep_model_def py_is_not_def np_tile_def np_matmul_def
      np_transpose_def ncols_def np_dot_def mat_add_def relu_def)

lemma deep_prefix:
  assumes "256 < n - 2" and "k \<le> n - 1"
  shows "for_range [0..<k] (predict_body (deep_model n)) ([[0]], Some c) =
           Inr ([[0]], Some (c @ replicate k [[0]]))"
  using assms(2)
proof (induction k)
  case 0
  then show ?case by simp
next
  case (Suc k)
  then have "k < n - 1" by simp
  from deep_layer_output [OF assms(1) this] Suc show ?case
    by (simp add: for_range_append predict_body_def deep_lengths replicate_append_same Let_def)
qed

text \<open>
  C6. \<^verbatim>\<open>predict\<close> passes the last layer transition through unactivated. On the chain
  of 259 layers and the input \<open>[[0]]\<close> it does not: every cached output is \<open>[[0]]\<close>,
  the last transition computes \<open>0 * 1 + (-1) = -1\<close> from it, and the prediction
  returned is \<open>[[0]]\<close>, the ReLU of that.
\<close>

theorem predict_deep_network:
  "predict (deep_model 259) [[0]] (Some []) = Inr ([[0]], Some (replicate 258 [[0]])) \<and>
   mat_add (np_matmul [[0]] (weights (deep_model 259) ! 257))
           (np_tile (biases (deep_model 259) ! 257) (length [[0::real]])) = [[-1]]"
proof -
  have "predict (deep_model 259) [[0]] (Some []) = Inr ([[0]], Some (replicate 258 [[0]]))"
    using deep_prefix [of 259 258 "[]"] by (simp add: predict_def deep_lengths)
  moreover have "mat_add (np_matmul [[0]] (weights (deep_model 259) ! 257))
           (np_tile (biases (deep_model 259) ! 257) (length [[0::real]])) = [[-1]]"
    by (simp add: deep_model_def np_tile_def np_matmul_def
      np_transpose_def ncols_def np_dot_def mat_add_def)
  ultimately show ?thesis by simp
qed

section \<open>The loops of the training step\<close>

text \<open>
  What each of the three loops has computed when it ends: the error signals from the
  back, the gradients from the front, and the updated weights and biases.
\<close>

lemma z_primes_prefix:
  assumes "length acts = length (layers M) - 1" and "2 \<le> length (layers M)"
    and "m \<le> length (layers M) - 2"
  shows "length (fold (z_primes_body M acts) [0..<m] (acts[length acts - 1 := errors]))
           = length (layers M) - 1 \<and>
         fold (z_primes_body M acts) [0..<m] (acts[length acts - 1 := errors])
           ! (length (layers M) - 2) = errors \<and>
         (\<forall>k. length (layers M) - 2 - m \<le> k \<and> k < length (layers M) - 2 \<longrightarrow>
            fold (z_primes_body M acts) [0..<m] (acts[length acts - 1 := errors]) ! k =
              np_multiply
                (np_matmul (fold (z_primes_body M acts) [0..<m] (acts[length acts - 1 := errors]) ! (k + 1))
                           (np_transpose (weights M ! (k + 1))))
                (a_primes_of (acts ! k))) \<and>
         (\<forall>k < length (layers M) - 2 - m.
            fold (z_primes_body M acts) [0..<m] (acts[length acts - 1 := errors]) ! k = acts ! k)"
  using assms(3)
proof (induction m)
  case 0
  have e: "length acts - 1 = length (layers M) - 2"
    using assms(1) by simp
  have lt: "length (layers M) - 2 < length acts"
    using assms(1,2) by simp
  show ?case
    unfolding fold.simps upt_0 id_apply e
  proof (intro conjI allI impI)
    show "length (acts[length (layers M) - 2 := errors]) = length (layers M) - 1"
      using assms(1) by simp
    show "acts[length (layers M) - 2 := errors] ! (length (layers M) - 2) = errors"
      using lt by simp
  next
    fix k assume "length (layers M) - 2 - 0 \<le> k \<and> k < length (layers M) - 2"
    then have False by linarith
    then show "acts[length (layers M) - 2 := errors] ! k =
         np_multiply (np_matmul (acts[length (layers M) - 2 := errors] ! (k + 1))
           (np_transpose (weights M ! (k + 1)))) (a_primes_of (acts ! k))" ..
  next
    fix k assume "k < length (layers M) - 2 - 0"
    then show "acts[length (layers M) - 2 := errors] ! k = acts ! k"
      by simp
  qed
next
  case (Suc m)
  define Z where "Z = fold (z_primes_body M acts) [0..<m] (acts[length acts - 1 := errors])"
  define i where "i = length (layers M) - 3 - m"
  from Suc.prems have m: "m \<le> length (layers M) - 2" by simp
  from Suc.prems have i1: "length (layers M) - 2 - m = i + 1"
    and i2: "length (layers M) - 2 - Suc m = i"
    and i3: "length acts - 1 - m = i + 1"
    and i4: "length acts - 2 - m = i"
    and i5: "i < length (layers M) - 2"
    using assms(1) by (simp_all add: i_def)
  from Suc.IH [OF m] have lenZ: "length Z = length (layers M) - 1"
    and lastZ: "Z ! (length (layers M) - 2) = errors"
    and filled: "\<And>k. i + 1 \<le> k \<Longrightarrow> k < length (layers M) - 2 \<Longrightarrow>
            Z ! k = np_multiply (np_matmul (Z ! (k + 1)) (np_transpose (weights M ! (k + 1))))
                      (a_primes_of (acts ! k))"
    and rest: "\<And>k. k < i + 1 \<Longrightarrow> Z ! k = acts ! k"
    unfolding Z_def [symmetric] i1 by auto
  define Z' where "Z' = Z[i := np_multiply (np_matmul (Z ! (i + 1)) (np_transpose (weights M ! (i + 1))))
                      (a_primes_of (acts ! i))]"
  have "fold (z_primes_body M acts) [0..<Suc m] (acts[length acts - 1 := errors])
          = z_primes_body M acts m Z"
    by (simp add: Z_def)
  also have "\<dots> = Z'"
    unfolding z_primes_body_def Let_def Z'_def i3 i4 i1 i_def [symmetric] ..
  finally have step:
    "fold (z_primes_body M acts) [0..<Suc m] (acts[length acts - 1 := errors]) = Z'" .
  have iZ: "i < length Z"
    using i5 lenZ by simp
  have a: "length Z' = length (layers M) - 1"
    by (simp add: Z'_def lenZ)
  have b: "Z' ! (length (layers M) - 2) = errors"
    using i5 lastZ by (simp add: Z'_def)
  have c: "Z' ! k = np_multiply (np_matmul (Z' ! (k + 1)) (np_transpose (weights M ! (k + 1))))
                      (a_primes_of (acts ! k))"
    if "i \<le> k" "k < length (layers M) - 2" for k
  proof (cases "k = i")
    case True
    then show ?thesis using iZ by (simp add: Z'_def)
  next
    case False
    with that have k: "i + 1 \<le> k" and "i \<noteq> Suc k" by simp_all
    with filled [OF k that(2)] False show ?thesis
      by (simp add: Z'_def)
  qed
  have d: "Z' ! k = acts ! k" if "k < i" for k
    using that rest [of k] by (simp add: Z'_def)
  show ?case
    unfolding step i2 using a b c d by blast
qed


lemma compute_z_primes_run:
  assumes "length acts = length (layers M) - 1" and "2 \<le> length (layers M)"
  shows "length (compute_z_primes M acts errors) = length (layers M) - 1"
    and "compute_z_primes M acts errors ! (length (layers M) - 2) = errors"
    and "k < length (layers M) - 2 \<Longrightarrow>
           compute_z_primes M acts errors ! k =
             np_multiply
               (np_matmul (compute_z_primes M acts errors ! (k + 1))
                          (np_transpose (weights M ! (k + 1))))
               (a_primes_of (acts ! k))"
  using z_primes_prefix [OF assms, of "length (layers M) - 2" errors]
  unfolding compute_z_primes_def by simp_all

lemma deltas_prefix:
  assumes "m < length W"
  shows "length (fold (deltas_body acts z) [0..<m] (W[0 := g])) = length W \<and>
         fold (deltas_body acts z) [0..<m] (W[0 := g]) ! 0 = g \<and>
         (\<forall>j. 0 < j \<and> j \<le> m \<longrightarrow>
            fold (deltas_body acts z) [0..<m] (W[0 := g]) ! j =
              np_matmul (np_transpose (acts ! (j - 1))) (z ! j)) \<and>
         (\<forall>j. m < j \<longrightarrow> fold (deltas_body acts z) [0..<m] (W[0 := g]) ! j = W ! j)"
  using assms
proof (induction m)
  case 0
  then show ?case by simp
next
  case (Suc m)
  define D where "D = fold (deltas_body acts z) [0..<m] (W[0 := g])"
  from Suc have lenD: "length D = length W" and D0: "D ! 0 = g"
    and filled: "\<And>j. 0 < j \<Longrightarrow> j \<le> m \<Longrightarrow> D ! j = np_matmul (np_transpose (acts ! (j - 1))) (z ! j)"
    and rest: "\<And>j. m < j \<Longrightarrow> D ! j = W ! j"
    unfolding D_def [symmetric] by auto
  define D' where "D' = D[m + 1 := np_matmul (np_transpose (acts ! m)) (z ! (m + 1))]"
  have step: "fold (deltas_body acts z) [0..<Suc m] (W[0 := g]) = D'"
    by (simp add: D_def [symmetric] deltas_body_def D'_def)
  have a: "length D' = length W"
    by (simp add: D'_def lenD)
  have b: "D' ! 0 = g"
    using D0 by (simp add: D'_def)
  have c: "D' ! j = np_matmul (np_transpose (acts ! (j - 1))) (z ! j)" if "0 < j" "j \<le> Suc m" for j
  proof (cases "j = Suc m")
    case True
    then show ?thesis using Suc.prems lenD by (simp add: D'_def)
  next
    case False
    with that have "j \<le> m" by simp
    from filled [OF that(1) this] False show ?thesis
      by (simp add: D'_def)
  qed
  have d: "D' ! j = W ! j" if "Suc m < j" for j
    using that rest [of j] by (simp add: D'_def)
  show ?case
    unfolding step using a b c d by blast
qed

lemma compute_deltas_run:
  assumes "length (weights M) = length (layers M) - 1" and "2 \<le> length (layers M)"
  shows "length (compute_deltas M inputs acts z) = length (weights M)"
    and "compute_deltas M inputs acts z ! 0 = np_matmul (np_transpose inputs) (z ! 0)"
    and "0 < j \<Longrightarrow> j \<le> length (layers M) - 3 \<Longrightarrow>
           compute_deltas M inputs acts z ! j = np_matmul (np_transpose (acts ! (j - 1))) (z ! j)"
    and "length (layers M) - 3 < j \<Longrightarrow> compute_deltas M inputs acts z ! j = weights M ! j"
proof -
  have "length (layers M) - 3 < length (weights M)"
    using assms by simp
  from deltas_prefix [OF this, of acts z "np_matmul (np_transpose inputs) (z ! 0)"]
  show "length (compute_deltas M inputs acts z) = length (weights M)"
    and "compute_deltas M inputs acts z ! 0 = np_matmul (np_transpose inputs) (z ! 0)"
    and "0 < j \<Longrightarrow> j \<le> length (layers M) - 3 \<Longrightarrow>
           compute_deltas M inputs acts z ! j = np_matmul (np_transpose (acts ! (j - 1))) (z ! j)"
    and "length (layers M) - 3 < j \<Longrightarrow> compute_deltas M inputs acts z ! j = weights M ! j"
    unfolding compute_deltas_def by simp_all
qed

lemma update_prefix:
  assumes "n \<le> length z" and "n \<le> length (biases M)" and "n \<le> length d"
  shows "\<exists>M'. for_range [0..<n] (update_body l lr N z d) M = Inr M' \<and>
           layers M' = layers M \<and>
           length (weights M') = length (weights M) \<and>
           length (biases M') = length (biases M) \<and>
           (\<forall>j. j < n \<and> j < length (weights M) \<longrightarrow>
                weights M' ! j = new_weight l lr N (weights M ! j) (d ! j)) \<and>
           (\<forall>j < n. biases M' ! j = new_bias lr N (biases M ! j) (z ! j)) \<and>
           (\<forall>j. n \<le> j \<longrightarrow> weights M' ! j = weights M ! j \<and> biases M' ! j = biases M ! j)"
  using assms
proof (induction n)
  case 0
  then show ?case by simp
next
  case (Suc n)
  then obtain M1 where run: "for_range [0..<n] (update_body l lr N z d) M = Inr M1"
    and lay: "layers M1 = layers M"
    and lw: "length (weights M1) = length (weights M)"
    and lb: "length (biases M1) = length (biases M)"
    and w: "\<And>j. j < n \<Longrightarrow> j < length (weights M) \<Longrightarrow>
                weights M1 ! j = new_weight l lr N (weights M ! j) (d ! j)"
    and b: "\<And>j. j < n \<Longrightarrow> biases M1 ! j = new_bias lr N (biases M ! j) (z ! j)"
    and rest: "\<And>j. n \<le> j \<Longrightarrow> weights M1 ! j = weights M ! j \<and> biases M1 ! j = biases M ! j"
    by auto
  define M2 where "M2 = M1\<lparr>weights := (weights M1)[n := new_weight l lr N (weights M1 ! n) (d ! n)],
               biases := (biases M1)[n := new_bias lr N (biases M1 ! n) (z ! n)]\<rparr>"
  have step: "for_range [0..<Suc n] (update_body l lr N z d) M = Inr M2"
    using run Suc.prems lb by (simp add: for_range_append update_body_def M2_def)
  have 1: "layers M2 = layers M" "length (weights M2) = length (weights M)"
    "length (biases M2) = length (biases M)"
    by (simp_all add: M2_def lay lw lb)
  have 2: "weights M2 ! j = new_weight l lr N (weights M ! j) (d ! j)"
    if "j < Suc n" "j < length (weights M)" for j
  proof (cases "j = n")
    case True
    then show ?thesis using that(2) lw rest [of n] by (simp add: M2_def)
  next
    case False
    with that have "j < n" by simp
    from w [OF this that(2)] False show ?thesis by (simp add: M2_def)
  qed
  have 3: "biases M2 ! j = new_bias lr N (biases M ! j) (z ! j)" if "j < Suc n" for j
  proof (cases "j = n")
    case True
    then show ?thesis using Suc.prems(2) lb rest [of n] by (simp add: M2_def)
  next
    case False
    with that have "j < n" by simp
    from b [OF this] False show ?thesis by (simp add: M2_def)
  qed
  have 4: "weights M2 ! j = weights M ! j \<and> biases M2 ! j = biases M ! j" if "Suc n \<le> j" for j
    using that rest [of j] by (simp add: M2_def)
  show ?case
    unfolding step using 1 2 3 4 by blast
qed

lemma update_model_run:
  assumes "length (weights M) - 1 \<le> length z" and "length (weights M) - 1 \<le> length (biases M)"
    and "length (weights M) - 1 \<le> length d"
  obtains M' where
    "update_model l lr N z d M = Inr M'"
    "layers M' = layers M"
    "length (weights M') = length (weights M)"
    "length (biases M') = length (biases M)"
    "\<forall>j < length (weights M) - 1.
       weights M' ! j = new_weight l lr N (weights M ! j) (d ! j) \<and>
       biases M' ! j = new_bias lr N (biases M ! j) (z ! j)"
    "\<forall>j \<ge> length (weights M) - 1.
       weights M' ! j = weights M ! j \<and> biases M' ! j = biases M ! j"
proof -
  from update_prefix [OF assms, of l lr N] obtain M' where
    1: "update_model l lr N z d M = Inr M'" "layers M' = layers M"
      "length (weights M') = length (weights M)" "length (biases M') = length (biases M)"
    and 2: "\<forall>j. j < length (weights M) - 1 \<and> j < length (weights M) \<longrightarrow>
                weights M' ! j = new_weight l lr N (weights M ! j) (d ! j)"
    and 3: "\<forall>j < length (weights M) - 1. biases M' ! j = new_bias lr N (biases M ! j) (z ! j)"
    and 4: "\<forall>j \<ge> length (weights M) - 1.
       weights M' ! j = weights M ! j \<and> biases M' ! j = biases M ! j"
    unfolding update_model_def by blast
  from 2 3 have "\<forall>j < length (weights M) - 1.
       weights M' ! j = new_weight l lr N (weights M ! j) (d ! j) \<and>
       biases M' ! j = new_bias lr N (biases M ! j) (z ! j)"
    by auto
  with that [OF 1] 4 show thesis by blast
qed

section \<open>A training step returns\<close>

text \<open>
  On a well-shaped call no statement of the step raises, and the step leaves behind the
  values that its statements compute in turn.
\<close>

lemma well_shaped_lengths:
  assumes "well_shaped M inputs outputs"
  shows "2 \<le> length (layers M)" "length (weights M) = length (layers M) - 1"
    "length (biases M) = length (layers M) - 1" "wf_model M" "0 < length inputs"
    "has_shape (length inputs) (hd (layers M)) inputs"
    "has_shape (length inputs) (last (layers M)) outputs"
    "0 < last (layers M)"
proof -
  from assms show wf: "wf_model M" and "0 < length inputs"
    "has_shape (length inputs) (hd (layers M)) inputs"
    "has_shape (length inputs) (last (layers M)) outputs"
    by (simp_all add: well_shaped_def)
  from wf show L: "2 \<le> length (layers M)" and "length (weights M) = length (layers M) - 1"
    "length (biases M) = length (layers M) - 1"
    by (simp_all add: wf_model_def)
  from L have "layers M \<noteq> []" by auto
  then have "last (layers M) = layers M ! (length (layers M) - 1)"
    by (rule last_conv_nth)
  with wf L show "0 < last (layers M)"
    by (simp add: wf_model_def)
qed

lemma train_step_value:
  assumes "well_shaped M inputs outputs"
  obtains y acts M' where
    "predict M inputs (Some []) = Inr (y, Some acts)"
    "length acts = length (layers M) - 1"
    "y = last acts"
    "has_shape (length inputs) (last (layers M)) y"
    "\<forall>k < length (layers M) - 1.
       acts ! k = layer_output M k (if k = 0 then inputs else acts ! (k - 1))"
    "\<forall>k < length (layers M) - 1. has_shape (length inputs) (layers M ! (k + 1)) (acts ! k)"
    "update_model l lr (length inputs) (compute_z_primes M acts (mat_sub y outputs))
       (compute_deltas M inputs acts (compute_z_primes M acts (mat_sub y outputs))) M = Inr M'"
    "train_step l lr M inputs outputs =
       Inr \<lparr>model_of = M', y_hat_of = y, errors_of = mat_sub y outputs,
            loss_of = 1 / 2 * (np_dot (column0 (mat_sub y outputs)) (column0 (mat_sub y outputs)))\<^sup>2,
            objective_of =
              1 / real (length inputs) *
                (1 / 2 * (np_dot (column0 (mat_sub y outputs)) (column0 (mat_sub y outputs)))\<^sup>2) +
              l / 2 * frob_sum (weights M),
            activated_of = acts,
            z_primes_of = compute_z_primes M acts (mat_sub y outputs),
            deltas_of = compute_deltas M inputs acts (compute_z_primes M acts (mat_sub y outputs))\<rparr>"
proof -
  note ws = well_shaped_lengths [OF assms]
  from predict_shapes [OF ws(4) ws(6), of "[]"] obtain y acts where
    run: "predict M inputs (Some []) = Inr (y, Some acts)"
    and la: "length acts = length (layers M) - 1"
    and y: "y = last acts"
    and ys: "has_shape (length inputs) (last (layers M)) y"
    and acts: "\<forall>k < length (layers M) - 1.
       acts ! k = layer_output M k (if k = 0 then inputs else acts ! (k - 1))"
    and shapes: "\<forall>k < length (layers M) - 1. has_shape (length inputs) (layers M ! (k + 1)) (acts ! k)"
    by (metis append_Nil)
  let ?E = "mat_sub y outputs"
  let ?Z = "compute_z_primes M acts ?E"
  let ?D = "compute_deltas M inputs acts ?Z"
  have "has_shape (length inputs) (last (layers M)) ?E"
    unfolding mat_sub_def by (rule map2_shape [OF ys ws(7)])
  then have rows: "\<not> list_ex (\<lambda>r. r = []) ?E"
    using ws(8) by (auto simp: has_shape_def list_ex_iff)
  have ne: "acts \<noteq> []"
    using la ws(1) by auto
  have nz: "length inputs \<noteq> 0"
    using ws(5) by simp
  have lz: "length ?Z = length (layers M) - 1"
    by (rule compute_z_primes_run(1) [OF la ws(1)])
  have ld: "length ?D = length (weights M)"
    by (rule compute_deltas_run(1) [OF ws(2) ws(1)])
  have "length (weights M) - 1 \<le> length ?Z" "length (weights M) - 1 \<le> length (biases M)"
    "length (weights M) - 1 \<le> length ?D"
    using lz ld ws(2,3) by simp_all
  from update_model_run [OF this, of l lr "length inputs"]
  obtain M' where up: "update_model l lr (length inputs) ?Z ?D M = Inr M'"
    by blast
  have "train_step l lr M inputs outputs =
       Inr \<lparr>model_of = M', y_hat_of = y, errors_of = ?E,
            loss_of = 1 / 2 * (np_dot (column0 ?E) (column0 ?E))\<^sup>2,
            objective_of =
              1 / real (length inputs) * (1 / 2 * (np_dot (column0 ?E) (column0 ?E))\<^sup>2) +
              l / 2 * frob_sum (weights M),
            activated_of = acts, z_primes_of = ?Z, deltas_of = ?D\<rparr>"
    unfolding train_step_def Let_def using run rows ne nz up by simp
  with that [OF run la y ys acts shapes up] show thesis .
qed

lemma train_step_run:
  assumes "well_shaped M inputs outputs"
  obtains r where
    "train_step l lr M inputs outputs = Inr r"
    "predict M inputs (Some []) = Inr (y_hat_of r, Some (activated_of r))"
    "length (activated_of r) = length (layers M) - 1"
    "y_hat_of r = last (activated_of r)"
    "has_shape (length inputs) (last (layers M)) (y_hat_of r)"
    "\<forall>k < length (layers M) - 1.
       activated_of r ! k =
         layer_output M k (if k = 0 then inputs else activated_of r ! (k - 1))"
    "\<forall>k < length (layers M) - 1.
       has_shape (length inputs) (layers M ! (k + 1)) (activated_of r ! k)"
    "errors_of r = mat_sub (y_hat_of r) outputs"
    "loss_of r = 1 / 2 * (np_dot (column0 (errors_of r)) (column0 (errors_of r)))\<^sup>2"
    "objective_of r = 1 / real (length inputs) * loss_of r + l / 2 * frob_sum (weights M)"
    "z_primes_of r = compute_z_primes M (activated_of r) (errors_of r)"
    "deltas_of r = compute_deltas M inputs (activated_of r) (z_primes_of r)"
    "update_model l lr (length inputs) (z_primes_of r) (deltas_of r) M = Inr (model_of r)"
proof -
  from train_step_value [OF assms, of l lr] obtain y acts M' where
    run: "predict M inputs (Some []) = Inr (y, Some acts)"
    and la: "length acts = length (layers M) - 1"
    and y: "y = last acts"
    and ys: "has_shape (length inputs) (last (layers M)) y"
    and acts: "\<forall>k < length (layers M) - 1.
       acts ! k = layer_output M k (if k = 0 then inputs else acts ! (k - 1))"
    and shapes: "\<forall>k < length (layers M) - 1.
       has_shape (length inputs) (layers M ! (k + 1)) (acts ! k)"
    and up: "update_model l lr (length inputs) (compute_z_primes M acts (mat_sub y outputs))
       (compute_deltas M inputs acts (compute_z_primes M acts (mat_sub y outputs))) M = Inr M'"
    and step: "train_step l lr M inputs outputs =
       Inr \<lparr>model_of = M', y_hat_of = y, errors_of = mat_sub y outputs,
            loss_of = 1 / 2 * (np_dot (column0 (mat_sub y outputs)) (column0 (mat_sub y outputs)))\<^sup>2,
            objective_of =
              1 / real (length inputs) *
                (1 / 2 * (np_dot (column0 (mat_sub y outputs)) (column0 (mat_sub y outputs)))\<^sup>2) +
              l / 2 * frob_sum (weights M),
            activated_of = acts,
            z_primes_of = compute_z_primes M acts (mat_sub y outputs),
            deltas_of = compute_deltas M inputs acts (compute_z_primes M acts (mat_sub y outputs))\<rparr>"
    by blast
  define r where "r =
       \<lparr>model_of = M', y_hat_of = y, errors_of = mat_sub y outputs,
            loss_of = 1 / 2 * (np_dot (column0 (mat_sub y outputs)) (column0 (mat_sub y outputs)))\<^sup>2,
            objective_of =
              1 / real (length inputs) *
                (1 / 2 * (np_dot (column0 (mat_sub y outputs)) (column0 (mat_sub y outputs)))\<^sup>2) +
              l / 2 * frob_sum (weights M),
            activated_of = acts,
            z_primes_of = compute_z_primes M acts (mat_sub y outputs),
            deltas_of = compute_deltas M inputs acts (compute_z_primes M acts (mat_sub y outputs))\<rparr>"
  have sel: "model_of r = M'" "y_hat_of r = y" "errors_of r = mat_sub y outputs"
    "loss_of r = 1 / 2 * (np_dot (column0 (mat_sub y outputs)) (column0 (mat_sub y outputs)))\<^sup>2"
    "objective_of r =
       1 / real (length inputs) *
         (1 / 2 * (np_dot (column0 (mat_sub y outputs)) (column0 (mat_sub y outputs)))\<^sup>2) +
       l / 2 * frob_sum (weights M)"
    "activated_of r = acts"
    "z_primes_of r = compute_z_primes M acts (mat_sub y outputs)"
    "deltas_of r = compute_deltas M inputs acts (compute_z_primes M acts (mat_sub y outputs))"
    by (simp_all add: r_def)
  show thesis
  proof (rule that [of r])
    show "train_step l lr M inputs outputs = Inr r"
      unfolding r_def by (rule step)
    show "predict M inputs (Some []) = Inr (y_hat_of r, Some (activated_of r))"
      unfolding sel by (rule run)
    show "length (activated_of r) = length (layers M) - 1"
      unfolding sel by (rule la)
    show "y_hat_of r = last (activated_of r)"
      unfolding sel by (rule y)
    show "has_shape (length inputs) (last (layers M)) (y_hat_of r)"
      unfolding sel by (rule ys)
    show "\<forall>k < length (layers M) - 1.
       activated_of r ! k =
         layer_output M k (if k = 0 then inputs else activated_of r ! (k - 1))"
      unfolding sel by (rule acts)
    show "\<forall>k < length (layers M) - 1.
       has_shape (length inputs) (layers M ! (k + 1)) (activated_of r ! k)"
      unfolding sel by (rule shapes)
    show "errors_of r = mat_sub (y_hat_of r) outputs"
      unfolding sel by (rule refl)
    show "loss_of r = 1 / 2 * (np_dot (column0 (errors_of r)) (column0 (errors_of r)))\<^sup>2"
      unfolding sel by (rule refl)
    show "objective_of r = 1 / real (length inputs) * loss_of r + l / 2 * frob_sum (weights M)"
      unfolding sel by (rule refl)
    show "z_primes_of r = compute_z_primes M (activated_of r) (errors_of r)"
      unfolding sel by (rule refl)
    show "deltas_of r = compute_deltas M inputs (activated_of r) (z_primes_of r)"
      unfolding sel by (rule refl)
    show "update_model l lr (length inputs) (z_primes_of r) (deltas_of r) M = Inr (model_of r)"
      unfolding sel by (rule up)
  qed
qed

lemma well_shaped_example: "well_shaped example_model example_inputs example_outputs"
  using wf_example_model
  by (simp add: well_shaped_def example_inputs_def example_outputs_def has_shape_def example_model_def)

text \<open>The step on the small network, with learning rate 1 and no weight decay.\<close>

lemmas step_defs =
  train_step_def predict_def predict_body_def layer_output_def py_is_not_def
  np_tile_def np_matmul_def np_transpose_def ncols_def np_dot_def mat_add_def mat_sub_def
  relu_def column0_def frob_sum_def frob_squared_def np_trace_def
  compute_z_primes_def z_primes_body_def a_primes_of_def np_multiply_def
  compute_deltas_def deltas_body_def update_model_def update_body_def
  new_weight_def new_bias_def scalar_mult_def sub_row_vector_def np_sum_axis0_def

lemma example_step:
  "train_step 0 1 example_model example_inputs example_outputs =
     Inr \<lparr>model_of =
            \<lparr>layers = [2, 3, 1],
               weights = [[[- (1 / 2), - 1, - (1 / 2)], [- 2, - (3 / 2), - (3 / 2)]],
                          [[1 / 2], [1 / 2], [1 / 2]]],
               biases = [[[- (1 / 2), - (1 / 2), - (1 / 2)]], [[0]]]\<rparr>,
          y_hat_of = [[3], [1 / 2]], errors_of = [[2], [0]], loss_of = 8, objective_of = 4,
          activated_of = [[[1, 2, 3], [0, 1, 0]], [[3], [1 / 2]]],
          z_primes_of = [[[1, 1, 1], [0, 0, 0]], [[2], [0]]],
          deltas_of = [[[2, 2, 2], [4, 4, 4]], [[1 / 2], [1 / 2], [1 / 2]]]\<rparr>"
  by (simp add: step_defs example_model_def example_inputs_def example_outputs_def
      numeral_2_eq_2 numeral_3_eq_3 upt_conv_Cons Let_def)

section \<open>Backward propagation of the error signal\<close>

lemma a_primes_of_relu: "a_primes_of (relu A) = relu_derivative (relu A)"
  by (simp add: a_primes_of_def relu_derivative_def relu_def)

lemma layer_output_hidden:
  assumes "k < length (layers M) - 2"
  shows "layer_output M k X =
           relu (mat_add (np_matmul X (weights M ! k)) (np_tile (biases M ! k) (length X)))"
  using assms by (simp add: layer_output_def py_is_not_def Let_def)

lemma hidden_a_primes:
  assumes "\<forall>k < length (layers M) - 1.
       acts ! k = layer_output M k (if k = 0 then X else acts ! (k - 1))"
    and "k < length (layers M) - 2"
  shows "a_primes_of (acts ! k) = relu_derivative (acts ! k)"
proof -
  from assms(2) have "k < length (layers M) - 1" by simp
  with assms(1) have "acts ! k = layer_output M k (if k = 0 then X else acts ! (k - 1))"
    by blast
  then obtain Z where "acts ! k = relu Z"
    unfolding layer_output_hidden [OF assms(2)] by blast
  then show ?thesis
    by (simp only: a_primes_of_relu)
qed

text \<open>
  C1. In the backward pass of a training step the error signal at the last layer
  boundary is the prediction minus the target, and at every earlier boundary \<open>k\<close> it
  is the error signal at boundary \<open>k + 1\<close> times the transpose of weight matrix
  \<open>k + 1\<close>, multiplied entry by entry with the derivative of ReLU at the activation
  that the forward pass cached at boundary \<open>k\<close>.
\<close>

theorem backward_error_signals:
  assumes "well_shaped M inputs outputs"
  shows "\<exists>r. train_step l lr M inputs outputs = Inr r \<and>
           predict M inputs (Some []) = Inr (y_hat_of r, Some (activated_of r)) \<and>
           z_primes_of r ! (length (layers M) - 2) = mat_sub (y_hat_of r) outputs \<and>
           (\<forall>k < length (layers M) - 2.
              z_primes_of r ! k =
                np_multiply
                  (np_matmul (z_primes_of r ! (k + 1)) (np_transpose (weights M ! (k + 1))))
                  (relu_derivative (activated_of r ! k)))"
proof -
  note ws = well_shaped_lengths [OF assms]
  obtain r where
    step: "train_step l lr M inputs outputs = Inr r"
    and run: "predict M inputs (Some []) = Inr (y_hat_of r, Some (activated_of r))"
    and la: "length (activated_of r) = length (layers M) - 1"
    and acts: "\<forall>k < length (layers M) - 1.
       activated_of r ! k =
         layer_output M k (if k = 0 then inputs else activated_of r ! (k - 1))"
    and e: "errors_of r = mat_sub (y_hat_of r) outputs"
    and zr: "z_primes_of r = compute_z_primes M (activated_of r) (errors_of r)"
    by (rule train_step_run [OF assms, of l lr]) (rule that, assumption+)
  note z = compute_z_primes_run [OF la ws(1), where errors = "errors_of r", folded zr]
  have "z_primes_of r ! k =
          np_multiply (np_matmul (z_primes_of r ! (k + 1)) (np_transpose (weights M ! (k + 1))))
            (relu_derivative (activated_of r ! k))"
    if "k < length (layers M) - 2" for k
    unfolding hidden_a_primes [OF acts that, symmetric] by (rule z(3) [OF that])
  with step run z(2) [unfolded e] show ?thesis
    by blast
qed

theorem backward_error_signals_witness:
  "well_shaped example_model example_inputs example_outputs \<and>
   (\<exists>r. train_step 0 1 example_model example_inputs example_outputs = Inr r \<and>
        z_primes_of r ! 1 = mat_sub (y_hat_of r) example_outputs \<and>
        z_primes_of r ! 0 =
          np_multiply (np_matmul (z_primes_of r ! 1) (np_transpose (weights example_model ! 1)))
                      (relu_derivative (activated_of r ! 0)))"
proof -
  have "length (layers example_model) - 2 = 1"
    by (simp add: example_model_def)
  with backward_error_signals [OF well_shaped_example, of 0 1] well_shaped_example
  show ?thesis
    by fastforce
qed

text \<open>Shapes through the backward pass and the update.\<close>

lemma np_transpose_shape:
  assumes "has_shape n m A" and "0 < n"
  shows "has_shape m n (np_transpose A)"
  using assms ncols_shape [OF assms]
  by (simp add: has_shape_def np_transpose_def)

lemma scalar_mult_shape: "has_shape n m A \<Longrightarrow> has_shape n m (scalar_mult c A)"
  by (auto simp: has_shape_def scalar_mult_def)

lemma a_primes_of_shape: "has_shape n m A \<Longrightarrow> has_shape n m (a_primes_of A)"
  by (auto simp: has_shape_def a_primes_of_def)

lemma new_weight_shape:
  assumes "has_shape n m W" and "has_shape n m D"
  shows "has_shape n m (new_weight l lr N W D)"
  unfolding new_weight_def mat_sub_def mat_add_def
  by (intro map2_shape scalar_mult_shape assms)

lemma length_np_sum_axis0: "length (np_sum_axis0 A) = ncols A"
  by (simp add: np_sum_axis0_def length_np_transpose)

lemma new_bias_shape:
  assumes "has_shape 1 m b" and "has_shape n m Z" and "0 < n"
  shows "has_shape 1 m (new_bias lr N b Z)"
  using assms(1) ncols_shape [OF assms(2,3)]
  by (auto simp: has_shape_def new_bias_def sub_row_vector_def length_np_sum_axis0)

lemma z_primes_shape:
  assumes "wf_model M" and "length acts = length (layers M) - 1"
    and "has_shape n (last (layers M)) errors"
    and "\<forall>k < length (layers M) - 1. has_shape n (layers M ! (k + 1)) (acts ! k)"
    and "d \<le> length (layers M) - 2"
  shows "has_shape n (layers M ! (length (layers M) - 2 - d + 1))
           (compute_z_primes M acts errors ! (length (layers M) - 2 - d))"
  using assms(5)
proof (induction d)
  case 0
  from assms(1) have L: "2 \<le> length (layers M)"
    by (simp add: wf_model_def)
  then have "layers M \<noteq> []" by auto
  then have "last (layers M) = layers M ! (length (layers M) - 1)"
    by (rule last_conv_nth)
  moreover have "length (layers M) - 1 = length (layers M) - 2 + 1"
    using L by simp
  ultimately show ?case
    using compute_z_primes_run(2) [OF assms(2) L, of errors] assms(3) by simp
next
  case (Suc d)
  from assms(1) have L: "2 \<le> length (layers M)"
    by (simp add: wf_model_def)
  define k where "k = length (layers M) - 2 - Suc d"
  from Suc.prems have k: "k < length (layers M) - 2" and k1: "length (layers M) - 2 - d = k + 1"
    by (simp_all add: k_def)
  let ?Z = "compute_z_primes M acts errors"
  from Suc.prems have "d \<le> length (layers M) - 2" by simp
  from Suc.IH [OF this] have zs: "has_shape n (layers M ! (k + 1 + 1)) (?Z ! (k + 1))"
    unfolding k1 .
  from assms(1) k have W: "has_shape (layers M ! (k + 1)) (layers M ! (k + 1 + 1)) (weights M ! (k + 1))"
    and pos: "0 < layers M ! (k + 1)" "0 < layers M ! (k + 1 + 1)"
    by (simp_all add: wf_model_def)
  from assms(4) k have as: "has_shape n (layers M ! (k + 1)) (acts ! k)"
    by simp
  have "has_shape n (layers M ! (k + 1))
          (np_multiply (np_matmul (?Z ! (k + 1)) (np_transpose (weights M ! (k + 1))))
                       (a_primes_of (acts ! k)))"
    unfolding np_multiply_def
    by (intro map2_shape np_matmul_shape [OF zs np_transpose_shape [OF W pos(1)] pos(2)]
        a_primes_of_shape as)
  then show ?case
    unfolding k_def [symmetric] compute_z_primes_run(3) [OF assms(2) L k] .
qed


lemma z_primes_shape_at:
  assumes "wf_model M" and "length acts = length (layers M) - 1"
    and "has_shape n (last (layers M)) errors"
    and "\<forall>k < length (layers M) - 1. has_shape n (layers M ! (k + 1)) (acts ! k)"
    and "k \<le> length (layers M) - 2"
  shows "has_shape n (layers M ! (k + 1)) (compute_z_primes M acts errors ! k)"
proof -
  have le: "length (layers M) - 2 - k \<le> length (layers M) - 2"
    by simp
  have "length (layers M) - 2 - (length (layers M) - 2 - k) = k"
    using assms(5) by simp
  with z_primes_shape [OF assms(1-4) le] show ?thesis
    by (simp only:)
qed

lemma np_multiply_nth:
  assumes "has_shape n m A" and "has_shape n m B" and "i < n" and "j < m"
  shows "np_multiply A B ! i ! j = A ! i ! j * B ! i ! j"
  using assms by (simp add: np_multiply_def has_shape_def)

lemma relu_derivative_nth:
  assumes "has_shape n m A" and "i < n" and "j < m"
  shows "relu_derivative A ! i ! j = (if 0 < A ! i ! j then 1 else 0)"
  using assms by (simp add: relu_derivative_def has_shape_def)

lemma relu_derivative_shape: "has_shape n m A \<Longrightarrow> has_shape n m (relu_derivative A)"
  by (auto simp: has_shape_def relu_derivative_def)

lemma example_step_mask:
  "train_step 0 1 example_model example_inputs [[1], [0]] =
     Inr \<lparr>model_of =
            \<lparr>layers = [2, 3, 1],
               weights = [[[- (1 / 2), - (3 / 4), - (1 / 2)], [- 2, - (7 / 4), - (3 / 2)]],
                          [[1 / 2], [1 / 2], [1 / 2]]],
               biases = [[[- (1 / 2), - (5 / 8), - (1 / 2)]], [[0]]]\<rparr>,
          y_hat_of = [[3], [1 / 2]], errors_of = [[2], [1 / 2]],
          loss_of = 289 / 32, objective_of = 289 / 64,
          activated_of = [[[1, 2, 3], [0, 1, 0]], [[3], [1 / 2]]],
          z_primes_of = [[[1, 1, 1], [0, 1 / 4, 0]], [[2], [1 / 2]]],
          deltas_of = [[[2, 3 / 2, 2], [4, 9 / 2, 4]], [[1 / 2], [1 / 2], [1 / 2]]]\<rparr>"
  by (simp add: step_defs example_model_def example_inputs_def
      numeral_2_eq_2 numeral_3_eq_3 upt_conv_Cons Let_def)

lemma well_shaped_example_mask: "well_shaped example_model example_inputs [[1], [0]]"
  using wf_example_model
  by (simp add: well_shaped_def example_inputs_def has_shape_def example_model_def)

text \<open>
  C7. The derivative of ReLU that the backward pass uses is computed from the cached
  activation of the hidden layer, not by a second forward pass. Every entry of the
  error signal that the step leaves at a hidden boundary is the entry of the signal
  propagated back through the next weight matrix, times 1 where the cached activation
  at that boundary is strictly positive and times 0 at every other entry, so times 0
  where the cached value is 0. The mask that the loop body builds from the cached
  matrix has these entries, and the body reads \<^verbatim>\<open>activated\<close> only.
\<close>

theorem relu_derivative_from_cache:
  assumes "well_shaped M inputs outputs"
  shows "\<exists>r. train_step l lr M inputs outputs = Inr r \<and>
           predict M inputs (Some []) = Inr (y_hat_of r, Some (activated_of r)) \<and>
           (\<forall>k < length (layers M) - 2.
              has_shape (length inputs) (layers M ! (k + 1)) (activated_of r ! k) \<and>
              has_shape (length inputs) (layers M ! (k + 1)) (z_primes_of r ! k)) \<and>
           (\<forall>k < length (layers M) - 2. \<forall>i j.
              i < length inputs \<and> j < layers M ! (k + 1) \<longrightarrow>
              z_primes_of r ! k ! i ! j =
                np_matmul (z_primes_of r ! (k + 1)) (np_transpose (weights M ! (k + 1))) ! i ! j *
                (if 0 < activated_of r ! k ! i ! j then 1 else 0)) \<and>
           (\<forall>k < length (layers M) - 2. \<forall>i j.
              i < length (activated_of r ! k) \<and> j < length (activated_of r ! k ! i) \<longrightarrow>
              a_primes_of (activated_of r ! k) ! i ! j =
                (if 0 < activated_of r ! k ! i ! j then 1 else 0)) \<and>
           (\<forall>j < length (layers M) - 2. \<forall>z.
              z_primes_body M (activated_of r) j z =
                z[length (layers M) - 3 - j :=
                    np_multiply
                      (np_matmul (z ! (length (layers M) - 2 - j))
                                 (np_transpose (weights M ! (length (layers M) - 2 - j))))
                      (a_primes_of (activated_of r ! (length (layers M) - 3 - j)))]) \<and>
           z_primes_of r = compute_z_primes M (activated_of r) (errors_of r)"
proof -
  note ws = well_shaped_lengths [OF assms]
  obtain r where
    step: "train_step l lr M inputs outputs = Inr r"
    and run: "predict M inputs (Some []) = Inr (y_hat_of r, Some (activated_of r))"
    and la: "length (activated_of r) = length (layers M) - 1"
    and ys: "has_shape (length inputs) (last (layers M)) (y_hat_of r)"
    and acts: "\<forall>k < length (layers M) - 1.
       activated_of r ! k =
         layer_output M k (if k = 0 then inputs else activated_of r ! (k - 1))"
    and shapes: "\<forall>k < length (layers M) - 1.
       has_shape (length inputs) (layers M ! (k + 1)) (activated_of r ! k)"
    and er: "errors_of r = mat_sub (y_hat_of r) outputs"
    and zr: "z_primes_of r = compute_z_primes M (activated_of r) (errors_of r)"
    by (rule train_step_run [OF assms, of l lr]) (rule that, assumption+)
  note z = compute_z_primes_run [OF la ws(1), where errors = "errors_of r", folded zr]
  have es: "has_shape (length inputs) (last (layers M)) (errors_of r)"
    unfolding er mat_sub_def by (rule map2_shape [OF ys ws(7)])
  have zs: "has_shape (length inputs) (layers M ! (k + 1)) (z_primes_of r ! k)"
    if "k \<le> length (layers M) - 2" for k
    unfolding zr by (rule z_primes_shape_at [OF ws(4) la es shapes that])
  have as: "has_shape (length inputs) (layers M ! (k + 1)) (activated_of r ! k)"
    if "k < length (layers M) - 2" for k
    using shapes that by simp
  have masked: "z_primes_of r ! k ! i ! j =
                np_matmul (z_primes_of r ! (k + 1)) (np_transpose (weights M ! (k + 1))) ! i ! j *
                (if 0 < activated_of r ! k ! i ! j then 1 else 0)"
    if k: "k < length (layers M) - 2" and i: "i < length inputs" and j: "j < layers M ! (k + 1)"
    for k i j
  proof -
    let ?P = "np_matmul (z_primes_of r ! (k + 1)) (np_transpose (weights M ! (k + 1)))"
    from ws(4) k have W: "has_shape (layers M ! (k + 1)) (layers M ! (k + 1 + 1)) (weights M ! (k + 1))"
      and pos: "0 < layers M ! (k + 1)" "0 < layers M ! (k + 1 + 1)"
      by (simp_all add: wf_model_def)
    from k have "k + 1 \<le> length (layers M) - 2" by simp
    from zs [OF this] have z1: "has_shape (length inputs) (layers M ! (k + 1 + 1)) (z_primes_of r ! (k + 1))" .
    have P: "has_shape (length inputs) (layers M ! (k + 1)) ?P"
      by (rule np_matmul_shape [OF z1 np_transpose_shape [OF W pos(1)] pos(2)])
    have "z_primes_of r ! k = np_multiply ?P (relu_derivative (activated_of r ! k))"
      unfolding hidden_a_primes [OF acts k, symmetric] by (rule z(3) [OF k])
    then have "z_primes_of r ! k ! i ! j =
        np_multiply ?P (relu_derivative (activated_of r ! k)) ! i ! j"
      by (rule arg_cong)
    also have "\<dots> = ?P ! i ! j * relu_derivative (activated_of r ! k) ! i ! j"
      by (rule np_multiply_nth [OF P relu_derivative_shape [OF as [OF k]] i j])
    also have "relu_derivative (activated_of r ! k) ! i ! j =
        (if 0 < activated_of r ! k ! i ! j then 1 else 0)"
      by (rule relu_derivative_nth [OF as [OF k] i j])
    finally show ?thesis .
  qed
  have sh: "has_shape (length inputs) (layers M ! (k + 1)) (activated_of r ! k) \<and>
      has_shape (length inputs) (layers M ! (k + 1)) (z_primes_of r ! k)"
    if "k < length (layers M) - 2" for k
    using as [OF that] zs [of k] that by simp
  have entries: "a_primes_of (activated_of r ! k) ! i ! j =
                (if 0 < activated_of r ! k ! i ! j then 1 else 0)"
    if "k < length (layers M) - 2" "i < length (activated_of r ! k)"
      "j < length (activated_of r ! k ! i)" for k i j
    unfolding hidden_a_primes [OF acts that(1)] using that(2,3)
    by (simp add: relu_derivative_def)
  have body: "z_primes_body M (activated_of r) j z =
                z[length (layers M) - 3 - j :=
                    np_multiply
                      (np_matmul (z ! (length (layers M) - 2 - j))
                                 (np_transpose (weights M ! (length (layers M) - 2 - j))))
                      (a_primes_of (activated_of r ! (length (layers M) - 3 - j)))]"
    if "j < length (layers M) - 2" for j z
  proof -
    have "length (activated_of r) - 2 - j = length (layers M) - 3 - j"
      "length (activated_of r) - 1 - j = length (layers M) - 2 - j"
      using la by simp_all
    then show ?thesis
      by (simp only: z_primes_body_def Let_def)
  qed
  from step run sh masked entries body zr show ?thesis
    by blast
qed

theorem relu_derivative_from_cache_witness:
  "well_shaped example_model example_inputs [[1], [0]] \<and>
   (\<exists>r. train_step 0 1 example_model example_inputs [[1], [0]] = Inr r \<and>
        activated_of r ! 0 = [[1, 2, 3], [0, 1, 0]] \<and>
        a_primes_of (activated_of r ! 0) = [[1, 1, 1], [0, 1, 0]] \<and>
        np_matmul (z_primes_of r ! 1) (np_transpose (weights example_model ! 1)) =
          [[1, 1, 1], [1 / 4, 1 / 4, 1 / 4]] \<and>
        z_primes_of r ! 0 = [[1, 1, 1], [0, 1 / 4, 0]])"
proof -
  from relu_derivative_from_cache [OF well_shaped_example_mask, of 0 1]
  obtain r where r: "train_step 0 1 example_model example_inputs [[1], [0]] = Inr r"
    by blast
  have w: "weights example_model ! 1 = [[1 / 2], [1 / 2], [1 / 2]]"
    by (simp add: example_model_def)
  from r have "activated_of r ! 0 = [[1, 2, 3], [0, 1, 0]]"
    and "a_primes_of (activated_of r ! 0) = [[1, 1, 1], [0, 1, 0]]"
    and "np_matmul (z_primes_of r ! 1) (np_transpose (weights example_model ! 1)) =
          [[1, 1, 1], [1 / 4, 1 / 4, 1 / 4]]"
    and "z_primes_of r ! 0 = [[1, 1, 1], [0, 1 / 4, 0]]"
    unfolding example_step_mask w
    by (auto simp: a_primes_of_def np_matmul_def np_transpose_def ncols_def np_dot_def)
  with r well_shaped_example_mask show ?thesis
    by blast
qed

section \<open>The objective\<close>

text \<open>
  C9. With a weight decay that is not negative, the objective that a training step
  computes, the loss term plus the regularization term, is not negative.
\<close>

theorem objective_nonneg:
  assumes "well_shaped M inputs outputs" and "0 \<le> l"
  shows "\<exists>r. train_step l lr M inputs outputs = Inr r \<and>
           objective_of r =
             1 / real (length inputs) * loss_of r + regularization l (weights M) \<and>
           0 \<le> objective_of r"
proof -
  obtain r where
    step: "train_step l lr M inputs outputs = Inr r"
    and loss: "loss_of r = 1 / 2 * (np_dot (column0 (errors_of r)) (column0 (errors_of r)))\<^sup>2"
    and obj: "objective_of r = 1 / real (length inputs) * loss_of r + l / 2 * frob_sum (weights M)"
    by (rule train_step_run [OF assms(1), of l lr]) (rule that, assumption+)
  have "0 \<le> loss_of r"
    unfolding loss by simp
  then have "0 \<le> 1 / real (length inputs) * loss_of r"
    by simp
  moreover have "0 \<le> l / 2 * frob_sum (weights M)"
    using assms(2) frob_sum_nonneg [of "weights M"] by simp
  ultimately have "0 \<le> objective_of r"
    unfolding obj by (rule add_nonneg_nonneg)
  with step obj show ?thesis
    unfolding regularization_def by blast
qed

theorem objective_nonneg_witness:
  "well_shaped example_model example_inputs example_outputs \<and> (0::real) \<le> 0 \<and>
   (\<exists>r. train_step 0 1 example_model example_inputs example_outputs = Inr r \<and>
        objective_of r = 4 \<and> 0 \<le> objective_of r)"
proof -
  have l: "(0::real) \<le> 0" by simp
  from objective_nonneg [OF well_shaped_example l, of 1]
  obtain r where "train_step 0 1 example_model example_inputs example_outputs = Inr r"
    and "0 \<le> objective_of r"
    by blast
  then show ?thesis
    using well_shaped_example by (auto simp: example_step)
qed

section \<open>The update and the last layer\<close>

lemma step_frame:
  assumes "well_shaped M inputs outputs"
  shows "\<exists>r. train_step l lr M inputs outputs = Inr r \<and>
           layers (model_of r) = layers M \<and>
           length (weights (model_of r)) = length (weights M) \<and>
           length (biases (model_of r)) = length (biases M) \<and>
           last (weights (model_of r)) = last (weights M) \<and>
           last (biases (model_of r)) = last (biases M) \<and>
           (\<forall>j < length (weights M) - 1.
              weights (model_of r) ! j =
                new_weight l lr (length inputs) (weights M ! j) (deltas_of r ! j) \<and>
              biases (model_of r) ! j =
                new_bias lr (length inputs) (biases M ! j) (z_primes_of r ! j)) \<and>
           well_shaped (model_of r) inputs outputs"
proof -
  note ws = well_shaped_lengths [OF assms]
  obtain r where
    step: "train_step l lr M inputs outputs = Inr r"
    and la: "length (activated_of r) = length (layers M) - 1"
    and ys: "has_shape (length inputs) (last (layers M)) (y_hat_of r)"
    and shapes: "\<forall>k < length (layers M) - 1.
       has_shape (length inputs) (layers M ! (k + 1)) (activated_of r ! k)"
    and er: "errors_of r = mat_sub (y_hat_of r) outputs"
    and zr: "z_primes_of r = compute_z_primes M (activated_of r) (errors_of r)"
    and dr: "deltas_of r = compute_deltas M inputs (activated_of r) (z_primes_of r)"
    and up: "update_model l lr (length inputs) (z_primes_of r) (deltas_of r) M = Inr (model_of r)"
    by (rule train_step_run [OF assms, of l lr]) (rule that, assumption+)
  have lz: "length (z_primes_of r) = length (layers M) - 1"
    unfolding zr by (rule compute_z_primes_run(1) [OF la ws(1)])
  have ld: "length (deltas_of r) = length (weights M)"
    unfolding dr by (rule compute_deltas_run(1) [OF ws(2) ws(1)])
  have pre: "length (weights M) - 1 \<le> length (z_primes_of r)"
    "length (weights M) - 1 \<le> length (biases M)"
    "length (weights M) - 1 \<le> length (deltas_of r)"
    using lz ld ws(2,3) by simp_all
  obtain M' where up': "update_model l lr (length inputs) (z_primes_of r) (deltas_of r) M = Inr M'"
    and lay: "layers M' = layers M"
    and lw: "length (weights M') = length (weights M)"
    and lb: "length (biases M') = length (biases M)"
    and new: "\<forall>j < length (weights M) - 1.
       weights M' ! j = new_weight l lr (length inputs) (weights M ! j) (deltas_of r ! j) \<and>
       biases M' ! j = new_bias lr (length inputs) (biases M ! j) (z_primes_of r ! j)"
    and old: "\<forall>j \<ge> length (weights M) - 1.
       weights M' ! j = weights M ! j \<and> biases M' ! j = biases M ! j"
    by (rule update_model_run [OF pre, of l lr "length inputs"]) (rule that, assumption+)
  from up up' have M': "model_of r = M'" by simp
  have ne: "weights M \<noteq> []" "biases M \<noteq> []" "weights M' \<noteq> []" "biases M' \<noteq> []"
    using ws(1,2,3) lw lb by auto
  have "last (weights M') = weights M' ! (length (weights M) - 1)"
    using last_conv_nth [OF ne(3)] lw by simp
  also have "\<dots> = weights M ! (length (weights M) - 1)"
    using old by simp
  also have "\<dots> = last (weights M)"
    using last_conv_nth [OF ne(1)] by simp
  finally have w: "last (weights M') = last (weights M)" .
  have "last (biases M') = biases M' ! (length (weights M) - 1)"
    using last_conv_nth [OF ne(4)] lb ws(2,3) by simp
  also have "\<dots> = biases M ! (length (weights M) - 1)"
    using old by simp
  also have "\<dots> = last (biases M)"
    using last_conv_nth [OF ne(2)] ws(2,3) by simp
  finally have b: "last (biases M') = last (biases M)" .
  have es: "has_shape (length inputs) (last (layers M)) (errors_of r)"
    unfolding er mat_sub_def by (rule map2_shape [OF ys ws(7)])
  have zs: "has_shape (length inputs) (layers M ! (k + 1)) (z_primes_of r ! k)"
    if "k \<le> length (layers M) - 2" for k
    unfolding zr by (rule z_primes_shape_at [OF ws(4) la es shapes that])
  have in0: "has_shape (length inputs) (layers M ! 0) inputs"
    using ws(1,6) by (cases "layers M") auto
  have shape_new: "has_shape (layers M ! j) (layers M ! (j + 1)) (weights M' ! j) \<and>
          has_shape 1 (layers M ! (j + 1)) (biases M' ! j)"
    if j: "j < length (layers M) - 1" for j
  proof (cases "j < length (weights M) - 1")
    case False
    with old have "weights M' ! j = weights M ! j" "biases M' ! j = biases M ! j"
      by simp_all
    with ws(4) j show ?thesis
      by (simp add: wf_model_def)
  next
    case True
    then have j2: "j \<le> length (layers M) - 3" "j \<le> length (layers M) - 2"
      using ws(2) by simp_all
    from ws(4) j have W: "has_shape (layers M ! j) (layers M ! (j + 1)) (weights M ! j)"
      and B: "has_shape 1 (layers M ! (j + 1)) (biases M ! j)"
      by (simp_all add: wf_model_def)
    have X: "has_shape (length inputs) (layers M ! j)
               (if j = 0 then inputs else activated_of r ! (j - 1))"
      using in0 shapes j by (cases j) simp_all
    have "deltas_of r ! j =
            np_matmul (np_transpose (if j = 0 then inputs else activated_of r ! (j - 1)))
                      (z_primes_of r ! j)"
      unfolding dr
      using compute_deltas_run(2) [OF ws(2) ws(1)]
        compute_deltas_run(3) [OF ws(2) ws(1), where j = j] j2(1)
      by (cases "j = 0") simp_all
    then have D: "has_shape (layers M ! j) (layers M ! (j + 1)) (deltas_of r ! j)"
      using np_matmul_shape [OF np_transpose_shape [OF X ws(5)] zs [OF j2(2)] ws(5)]
      by simp
    from new True have "weights M' ! j =
        new_weight l lr (length inputs) (weights M ! j) (deltas_of r ! j)"
      and "biases M' ! j = new_bias lr (length inputs) (biases M ! j) (z_primes_of r ! j)"
      by simp_all
    then show ?thesis
      using new_weight_shape [OF W D] new_bias_shape [OF B zs [OF j2(2)] ws(5)] by simp
  qed
  have "wf_model M'"
    unfolding wf_model_def lay lw lb
    using ws(4) shape_new by (simp add: wf_model_def)
  then have "well_shaped M' inputs outputs"
    using assms by (simp add: well_shaped_def lay)
  with step lay lw lb w b new show ?thesis
    unfolding M' [symmetric] by blast
qed


lemma train_run_kept:
  assumes "kept M inputs outputs s"
  shows "\<exists>s'. train_run l lr inputs outputs run s = Inr s' \<and> kept M inputs outputs s' \<and>
           snd s' \<noteq> None"
proof -
  from assms have ws: "well_shaped (fst s) inputs outputs"
    by (simp add: kept_def)
  from step_frame [OF ws, of l lr] obtain r where
    "train_step l lr (fst s) inputs outputs = Inr r"
    "layers (model_of r) = layers (fst s)"
    "last (weights (model_of r)) = last (weights (fst s))"
    "last (biases (model_of r)) = last (biases (fst s))"
    "well_shaped (model_of r) inputs outputs"
    by blast
  with assms show ?thesis
    by (simp add: train_run_def kept_def)
qed

lemma train_epoch_kept:
  assumes "kept M inputs outputs s" and "0 < t"
  shows "\<exists>s'. train_epoch l lr inputs outputs t epoch s = Inr s' \<and> kept M inputs outputs s' \<and>
           snd s' \<noteq> None"
proof -
  from for_range_invariant [of "kept M inputs outputs" s "train_run l lr inputs outputs"
      "\<lambda>s. snd s \<noteq> None" "[0..<t]", OF assms(1) train_run_kept] assms(2)
  obtain s' where "for_range [0..<t] (train_run l lr inputs outputs) s = Inr s'"
    "kept M inputs outputs s'" "snd s' \<noteq> None"
    by auto
  then show ?thesis
    by (cases s') (auto simp: train_epoch_def)
qed

lemma train_frame:
  assumes "well_shaped M inputs outputs" and "0 < num_epochs" and "0 < t"
  shows "\<exists>y M'. train M inputs outputs num_epochs lr t = Inr (y, M') \<and>
           well_shaped M' inputs outputs \<and> layers M' = layers M \<and>
           last (weights M') = last (weights M) \<and> last (biases M') = last (biases M)"
proof -
  have start: "kept M inputs outputs (M, None)"
    using assms(1) by (simp add: kept_def)
  have body: "\<exists>s'. train_epoch (1 / 100000) lr inputs outputs t i s = Inr s' \<and>
      kept M inputs outputs s' \<and> snd s' \<noteq> None" if "kept M inputs outputs s" for i s
    by (rule train_epoch_kept [OF that assms(3)])
  from for_range_invariant [of "kept M inputs outputs" "(M, None)"
      "train_epoch (1 / 100000) lr inputs outputs t" "\<lambda>s. snd s \<noteq> None" "[0..<num_epochs]",
      OF start body] assms(2)
  obtain s' where run: "for_range [0..<num_epochs] (train_epoch (1 / 100000) lr inputs outputs t)
      (M, None) = Inr s'" and k: "kept M inputs outputs s'" and y: "snd s' \<noteq> None"
    by auto
  from y obtain M' y' where s': "s' = (M', Some y')"
    by (cases s') auto
  have "train M inputs outputs num_epochs lr t = Inr (y', M')"
    by (simp add: train_def run s')
  with k show ?thesis
    by (simp add: kept_def s')
qed

text \<open>
  C4. Every update step of \<^verbatim>\<open>train\<close> leaves the last weight matrix and the last bias
  vector as they were: the update, weight decay included, is applied to every weight
  matrix and bias vector but the last. So a step returns a model with the same last
  layer, and so does the whole of \<^verbatim>\<open>train\<close>, which returns whenever it runs at least
  one pass.
\<close>

theorem last_layer_unchanged:
  assumes "well_shaped M inputs outputs"
  shows "(\<exists>r. train_step l lr M inputs outputs = Inr r \<and>
            last (weights (model_of r)) = last (weights M) \<and>
            last (biases (model_of r)) = last (biases M) \<and>
            (\<forall>j < length (weights M) - 1.
               weights (model_of r) ! j =
                 new_weight l lr (length inputs) (weights M ! j) (deltas_of r ! j) \<and>
               biases (model_of r) ! j =
                 new_bias lr (length inputs) (biases M ! j) (z_primes_of r ! j)) \<and>
            well_shaped (model_of r) inputs outputs) \<and>
         (0 < num_epochs \<and> 0 < t \<longrightarrow>
            (\<exists>y M'. train M inputs outputs num_epochs lr' t = Inr (y, M') \<and>
               last (weights M') = last (weights M) \<and>
               last (biases M') = last (biases M)))"
proof -
  from step_frame [OF assms, of l lr]
  have "\<exists>r. train_step l lr M inputs outputs = Inr r \<and>
            last (weights (model_of r)) = last (weights M) \<and>
            last (biases (model_of r)) = last (biases M) \<and>
            (\<forall>j < length (weights M) - 1.
               weights (model_of r) ! j =
                 new_weight l lr (length inputs) (weights M ! j) (deltas_of r ! j) \<and>
               biases (model_of r) ! j =
                 new_bias lr (length inputs) (biases M ! j) (z_primes_of r ! j)) \<and>
            well_shaped (model_of r) inputs outputs"
    by blast
  moreover have "\<exists>y M'. train M inputs outputs num_epochs lr' t = Inr (y, M') \<and>
               last (weights M') = last (weights M) \<and>
               last (biases M') = last (biases M)"
    if "0 < num_epochs" "0 < t"
    using train_frame [OF assms that, of lr'] by blast
  ultimately show ?thesis
    by blast
qed

theorem last_layer_unchanged_witness:
  "well_shaped example_model example_inputs example_outputs \<and>
   (\<exists>r. train_step 0 1 example_model example_inputs example_outputs = Inr r \<and>
        last (weights (model_of r)) = [[1 / 2], [1 / 2], [1 / 2]] \<and>
        last (biases (model_of r)) = [[0]]) \<and>
   (\<exists>y M'. train example_model example_inputs example_outputs 5 (1 / 100) 1000 = Inr (y, M') \<and>
        last (weights M') = [[1 / 2], [1 / 2], [1 / 2]] \<and>
        last (biases M') = [[0]])"
proof -
  have last: "last (weights example_model) = [[1 / 2], [1 / 2], [1 / 2]]"
    "last (biases example_model) = [[0]]"
    by (simp_all add: example_model_def)
  from last_layer_unchanged [OF well_shaped_example, of 0 1 5 1000 "1 / 100"]
  show ?thesis
    unfolding last using well_shaped_example by simp blast
qed

section \<open>Where the step departs from the specification\<close>

text \<open>
  The steps below run with the weight decay \<open>1e-5\<close> of \<^verbatim>\<open>train\<close> and its default
  learning rate \<open>0.01\<close>.
\<close>

lemma example_step_default:
  "train_step (1 / 100000) (1 / 100) example_model example_inputs example_outputs =
     Inr \<lparr>model_of =
            \<lparr>layers = [2, 3, 1],
               weights = [[[9799999 / 20000000, - (1 / 100), 9799999 / 20000000],
                           [- (1 / 50), 9599999 / 20000000, 9599999 / 20000000]],
                          [[1 / 2], [1 / 2], [1 / 2]]],
               biases = [[[- (1 / 200), - (1 / 200), - (1 / 200)]], [[0]]]\<rparr>,
          y_hat_of = [[3], [1 / 2]], errors_of = [[2], [0]], loss_of = 8,
          objective_of = 3200007 / 800000,
          activated_of = [[[1, 2, 3], [0, 1, 0]], [[3], [1 / 2]]],
          z_primes_of = [[[1, 1, 1], [0, 0, 0]], [[2], [0]]],
          deltas_of = [[[2, 2, 2], [4, 4, 4]], [[1 / 2], [1 / 2], [1 / 2]]]\<rparr>"
  by (simp add: step_defs example_model_def example_inputs_def example_outputs_def
      numeral_2_eq_2 numeral_3_eq_3 upt_conv_Cons Let_def)

lemma linear_step:
  "train_step (1 / 100000) (1 / 100) linear_model [[1]] [[0]] =
     Inr \<lparr>model_of = linear_model,
          y_hat_of = [[1]], errors_of = [[1]], loss_of = 1 / 2,
          objective_of = 400001 / 800000,
          activated_of = [[[1]]], z_primes_of = [[[1]]], deltas_of = [[[1]]]\<rparr>"
  by (simp add: step_defs linear_model_def Let_def)

lemma linear_step_loss:
  "train_step (1 / 100000) (1 / 100) linear_model [[3]] [[0]] =
     Inr \<lparr>model_of = linear_model,
          y_hat_of = [[2]], errors_of = [[2]], loss_of = 8,
          objective_of = 6400001 / 800000,
          activated_of = [[[2]]], z_primes_of = [[[2]]], deltas_of = [[[6]]]\<rparr>"
  by (simp add: step_defs linear_model_def Let_def)

text \<open>
  The gradients that a step computes: the one of weight matrix 0 from the input batch,
  the one of weight matrix \<open>j\<close> from the cached activation \<open>j - 1\<close> for \<open>j\<close> up
  to \<open>L - 3\<close>. The loop stops there: the entry of the last weight matrix still
  holds the copy of that matrix that \<^verbatim>\<open>deltas\<close> was started with.
\<close>

lemma gradients_computed:
  assumes "well_shaped M inputs outputs"
  shows "\<exists>r. train_step l lr M inputs outputs = Inr r \<and>
           deltas_of r ! 0 = np_matmul (np_transpose inputs) (z_primes_of r ! 0) \<and>
           (\<forall>j. 0 < j \<and> j \<le> length (layers M) - 3 \<longrightarrow>
              deltas_of r ! j =
                np_matmul (np_transpose (activated_of r ! (j - 1))) (z_primes_of r ! j)) \<and>
           (\<forall>j. length (layers M) - 3 < j \<longrightarrow> deltas_of r ! j = weights M ! j)"
proof -
  note ws = well_shaped_lengths [OF assms]
  obtain r where
    step: "train_step l lr M inputs outputs = Inr r"
    and dr: "deltas_of r = compute_deltas M inputs (activated_of r) (z_primes_of r)"
    by (rule train_step_run [OF assms, of l lr]) (rule that, assumption+)
  note d = compute_deltas_run [OF ws(2) ws(1), where inputs = inputs
      and acts = "activated_of r" and z = "z_primes_of r", folded dr]
  from step d(2,3,4) show ?thesis
    by blast
qed

text \<open>
  C2. The gradient of weight matrix \<open>j\<close>, for \<open>0 < j \<le> L - 2\<close>, is the transposed
  cached activation \<open>j - 1\<close> times the error signal \<open>j\<close>. On the small network
  (\<open>L = 3\<close>) the step does not compute it for \<open>j = 1\<close>, the last weight matrix:
  \<^verbatim>\<open>deltas[1]\<close> is still that weight matrix, while the product is another matrix.
\<close>

theorem last_gradient_not_computed:
  "\<exists>r. train_step (1 / 100000) (1 / 100) example_model example_inputs example_outputs = Inr r \<and>
       deltas_of r ! 1 = weights example_model ! 1 \<and>
       deltas_of r ! 1 = [[1 / 2], [1 / 2], [1 / 2]] \<and>
       np_matmul (np_transpose (activated_of r ! 0)) (z_primes_of r ! 1) = [[2], [4], [6]]"
  unfolding example_step_default
  by (simp add: example_model_def np_matmul_def np_transpose_def ncols_def np_dot_def)

text \<open>On the network without hidden layer, \<^verbatim>\<open>train\<close> returns the model it was given.\<close>

lemma linear_train_run:
  assumes "fst s = linear_model"
  shows "\<exists>s'. train_run (1 / 100000) (1 / 100) [[1]] [[0]] run s = Inr s' \<and>
           fst s' = linear_model \<and> snd s' = Some [[1]]"
  using assms by (simp add: train_run_def linear_step)

lemma linear_train_epoch:
  assumes "fst s = linear_model" and "0 < t"
  shows "\<exists>s'. train_epoch (1 / 100000) (1 / 100) [[1]] [[0]] t epoch s = Inr s' \<and>
           fst s' = linear_model \<and> snd s' = Some [[1]]"
proof -
  from for_range_invariant [of "\<lambda>s. fst s = linear_model" s
      "train_run (1 / 100000) (1 / 100) [[1]] [[0]]" "\<lambda>s. snd s = Some [[1]]" "[0..<t]",
      OF assms(1) linear_train_run] assms(2)
  obtain s' where "for_range [0..<t] (train_run (1 / 100000) (1 / 100) [[1]] [[0]]) s = Inr s'"
    "fst s' = linear_model" "snd s' = Some [[1]]"
    by auto
  then show ?thesis
    by (simp add: train_epoch_def)
qed

lemma linear_train:
  assumes "0 < num_epochs" and "0 < t"
  shows "train linear_model [[1]] [[0]] num_epochs (1 / 100) t = Inr ([[1]], linear_model)"
proof -
  have body: "\<exists>s'. train_epoch (1 / 100000) (1 / 100) [[1]] [[0]] t i s = Inr s' \<and>
      fst s' = linear_model \<and> snd s' = Some [[1]]" if "fst s = linear_model" for i s
    by (rule linear_train_epoch [OF that assms(2)])
  from for_range_invariant [of "\<lambda>s. fst s = linear_model" "(linear_model, None)"
      "train_epoch (1 / 100000) (1 / 100) [[1]] [[0]] t" "\<lambda>s. snd s = Some [[1]]"
      "[0..<num_epochs]", OF _ body] assms(1)
  obtain s' where "for_range [0..<num_epochs] (train_epoch (1 / 100000) (1 / 100) [[1]] [[0]] t)
      (linear_model, None) = Inr s'" "fst s' = linear_model" "snd s' = Some [[1]]"
    by auto
  then show ?thesis
    by (cases s') (simp add: train_def)
qed

text \<open>
  C3. The update is applied to every weight matrix and every bias vector. On the
  network without hidden layer the step updates nothing: the only weight matrix and
  the only bias vector keep their values, while the update formulas give other ones,
  and the default call of \<^verbatim>\<open>train\<close> returns the model unchanged, with the prediction 1
  for the target 0.
\<close>

theorem last_layer_not_updated:
  "(\<exists>r. train_step (1 / 100000) (1 / 100) linear_model [[1]] [[0]] = Inr r \<and>
       weights (model_of r) ! 0 = [[1 / 2]] \<and>
       new_weight (1 / 100000) (1 / 100) (length [[1::real]])
         (weights linear_model ! 0) (deltas_of r ! 0) = [[9799999 / 20000000]] \<and>
       biases (model_of r) ! 0 = [[1 / 2]] \<and>
       new_bias (1 / 100) (length [[1::real]])
         (biases linear_model ! 0) (z_primes_of r ! 0) = [[49 / 100]]) \<and>
   train linear_model [[1]] [[0]] 5 (1 / 100) 1000 = Inr ([[1]], linear_model)"
proof -
  have "\<exists>r. train_step (1 / 100000) (1 / 100) linear_model [[1]] [[0]] = Inr r \<and>
       weights (model_of r) ! 0 = [[1 / 2]] \<and>
       new_weight (1 / 100000) (1 / 100) (length [[1::real]])
         (weights linear_model ! 0) (deltas_of r ! 0) = [[9799999 / 20000000]] \<and>
       biases (model_of r) ! 0 = [[1 / 2]] \<and>
       new_bias (1 / 100) (length [[1::real]])
         (biases linear_model ! 0) (z_primes_of r ! 0) = [[49 / 100]]"
    unfolding linear_step
    by (simp add: linear_model_def new_weight_def new_bias_def scalar_mult_def
        mat_add_def mat_sub_def sub_row_vector_def np_sum_axis0_def np_transpose_def ncols_def)
  moreover have "train linear_model [[1]] [[0]] 5 (1 / 100) 1000 = Inr ([[1]], linear_model)"
    by (rule linear_train) simp_all
  ultimately show ?thesis
    by (rule conjI)
qed

text \<open>
  C5. The loss term of the objective is the mean-squared error scaled by
  \<open>1 / (2 * num_samples)\<close>. With one sample and the error 2 that is 2; the step
  computes 8, since it squares the sum of the squared errors once more.
\<close>

theorem loss_squares_twice:
  "\<exists>r. train_step (1 / 100000) (1 / 100) linear_model [[3]] [[0]] = Inr r \<and>
       errors_of r = [[2]] \<and>
       1 / real (length [[3::real]]) * loss_of r = 8 \<and>
       mse_loss (length [[3::real]]) (errors_of r) = 2"
  unfolding linear_step_loss
  by (simp add: mse_loss_def sum_squares_def)

end
